theory Spec2Isabelle
  imports Complex_Main "HOL-Library.Word"
begin

unbundle bit_operations_syntax

section \<open>Machine types\<close>

type_synonym u8 = "8 word"
type_synonym u32 = "32 word"
type_synonym u64 = "64 word"
type_synonym i64 = "64 word"

text \<open>
  \<^verbatim>\<open>esp_err_t\<close> is a C \<^verbatim>\<open>int\<close>. The codes come from the SDK header \<^verbatim>\<open>esp_err.h\<close>;
  only their being pairwise distinct matters below.
\<close>

type_synonym esp_err_t = int

definition ESP_OK :: esp_err_t where "ESP_OK = 0"
definition ESP_FAIL :: esp_err_t where "ESP_FAIL = - 1"
definition ESP_ERR_INVALID_ARG :: esp_err_t where "ESP_ERR_INVALID_ARG = 0x102"
definition ESP_ERR_INVALID_STATE :: esp_err_t where "ESP_ERR_INVALID_STATE = 0x103"
definition ESP_ERR_TIMEOUT :: esp_err_t where "ESP_ERR_TIMEOUT = 0x107"
definition ESP_ERR_INVALID_CRC :: esp_err_t where "ESP_ERR_INVALID_CRC = 0x109"

section \<open>C \<^verbatim>\<open>float\<close>: IEEE 754 binary32\<close>

text \<open>
  A \<^verbatim>\<open>float\<close> is its 32-bit pattern: sign (bit 31), biased exponent (bits 30..23) and
  fraction (bits 22..0). Arithmetic is computed exactly on integers and then rounded to
  nearest, ties to even, which is the only rounding mode the target uses. Every NaN an
  operation produces is the quiet NaN \<open>0x7FC00000\<close>; no statement below depends on the
  payload of a NaN.
\<close>

type_synonym float32 = "32 word"

definition f32_sign :: "float32 \<Rightarrow> bool" where
  "f32_sign x = bit x 31"

definition f32_expo :: "float32 \<Rightarrow> nat" where
  "f32_expo x = unat (drop_bit 23 x AND 0xFF)"

definition f32_frac :: "float32 \<Rightarrow> nat" where
  "f32_frac x = unat (x AND 0x7FFFFF)"

definition f32_isnan :: "float32 \<Rightarrow> bool" where
  "f32_isnan x = (f32_expo x = 255 \<and> f32_frac x \<noteq> 0)"

definition f32_isinf :: "float32 \<Rightarrow> bool" where
  "f32_isinf x = (f32_expo x = 255 \<and> f32_frac x = 0)"

definition f32_isfinite :: "float32 \<Rightarrow> bool" where
  "f32_isfinite x = (f32_expo x \<noteq> 255)"

text \<open>A finite \<open>x\<close> has magnitude \<open>f32_mant x * 2 ^ f32_exp2 x\<close>.\<close>

definition f32_mant :: "float32 \<Rightarrow> nat" where
  "f32_mant x = (if f32_expo x = 0 then f32_frac x else 2 ^ 23 + f32_frac x)"

definition f32_exp2 :: "float32 \<Rightarrow> int" where
  "f32_exp2 x = (if f32_expo x = 0 then - 149 else int (f32_expo x) - 150)"

definition f32_qnan :: float32 where "f32_qnan = 0x7FC00000"

definition f32_zero :: "bool \<Rightarrow> float32" where
  "f32_zero s = (if s then 0x80000000 else 0)"

definition f32_inf :: "bool \<Rightarrow> float32" where
  "f32_inf s = (if s then 0xFF800000 else 0x7F800000)"

definition f32_neg :: "float32 \<Rightarrow> float32" where
  "f32_neg x = x XOR 0x80000000"

text \<open>Number of binary digits of a natural number.\<close>

fun bitlen :: "nat \<Rightarrow> nat" where
  "bitlen n = (if n = 0 then 0 else Suc (bitlen (n div 2)))"

declare bitlen.simps [simp del]

text \<open>
  \<open>f32_round s m e\<close> is the float nearest to \<open>\<plusminus> m * 2 ^ e\<close> (sign \<open>s\<close>), ties to even.
  The result's unit in the last place is \<open>2 ^ e'\<close>: 24 significant bits or, for a
  subnormal result, \<open>2 ^ -149\<close>. In \<open>f32_round_at\<close>, \<open>q\<close> is the truncated significand and
  \<open>r\<close> what was cut off; adding the significand to the exponent field carries a
  rounded-up \<open>2 ^ 24\<close> into the next binade, and everything from \<open>2 ^ 128\<close> on is infinite.
  \<open>f32_bits s v\<close> is the float with sign \<open>s\<close> and the 31 bits \<open>v\<close> below it.
\<close>

definition f32_bits :: "bool \<Rightarrow> nat \<Rightarrow> float32" where
  "f32_bits s v = f32_zero s OR word_of_nat v"

definition f32_round_at :: "bool \<Rightarrow> int \<Rightarrow> nat \<Rightarrow> int \<Rightarrow> float32" where
  "f32_round_at s e' m e =
     (let q = (if e' \<le> e then m * 2 ^ nat (e - e') else m div 2 ^ nat (e' - e));
          r = (if e' \<le> e then 0 else m mod 2 ^ nat (e' - e));
          h = (if e' \<le> e then 1 else 2 ^ (nat (e' - e) - 1));
          q' = (if h < r \<or> (r = h \<and> odd q) then q + 1 else q);
          v = nat (e' + 149) * 2 ^ 23 + q'
      in if 255 * 2 ^ 23 \<le> v then f32_inf s else f32_bits s v)"

definition f32_round :: "bool \<Rightarrow> nat \<Rightarrow> int \<Rightarrow> float32" where
  "f32_round s m e =
     (if m = 0 then f32_zero s
      else f32_round_at s (max (e + int (bitlen m) - 24) (- 149)) m e)"

text \<open>\<^verbatim>\<open>(float)n\<close> for an unsigned 32-bit \<open>n\<close>.\<close>

definition f32_of_u32 :: "u32 \<Rightarrow> float32" where
  "f32_of_u32 n = f32_round False (unat n) 0"

definition f32_add :: "float32 \<Rightarrow> float32 \<Rightarrow> float32" where
  "f32_add a b =
     (if f32_isnan a \<or> f32_isnan b then f32_qnan
      else if f32_isinf a then (if f32_isinf b \<and> f32_sign a \<noteq> f32_sign b then f32_qnan else a)
      else if f32_isinf b then b
      else
        let e = min (f32_exp2 a) (f32_exp2 b);
            va = (if f32_sign a then - 1 else 1) * int (f32_mant a) * 2 ^ nat (f32_exp2 a - e);
            vb = (if f32_sign b then - 1 else 1) * int (f32_mant b) * 2 ^ nat (f32_exp2 b - e);
            v = va + vb
        in if v = 0 then f32_zero (f32_sign a \<and> f32_sign b)
           else f32_round (v < 0) (nat \<bar>v\<bar>) e)"

definition f32_sub :: "float32 \<Rightarrow> float32 \<Rightarrow> float32" where
  "f32_sub a b = f32_add a (f32_neg b)"

definition f32_mul :: "float32 \<Rightarrow> float32 \<Rightarrow> float32" where
  "f32_mul a b =
     (let s = (f32_sign a \<noteq> f32_sign b) in
      if f32_isnan a \<or> f32_isnan b then f32_qnan
      else if f32_isinf a \<or> f32_isinf b then
        (if (f32_isfinite a \<and> f32_mant a = 0) \<or> (f32_isfinite b \<and> f32_mant b = 0)
         then f32_qnan else f32_inf s)
      else f32_round s (f32_mant a * f32_mant b) (f32_exp2 a + f32_exp2 b))"

text \<open>
  Division computes 50 extra quotient bits, so that the quotient has at least 27; a
  nonzero remainder is kept as one more (sticky) bit below them.
\<close>

definition f32_div :: "float32 \<Rightarrow> float32 \<Rightarrow> float32" where
  "f32_div a b =
     (let s = (f32_sign a \<noteq> f32_sign b) in
      if f32_isnan a \<or> f32_isnan b then f32_qnan
      else if f32_isinf a then (if f32_isinf b then f32_qnan else f32_inf s)
      else if f32_isinf b then f32_zero s
      else if f32_mant b = 0 then (if f32_mant a = 0 then f32_qnan else f32_inf s)
      else
        let n = f32_mant a * 2 ^ 50;
            q = n div f32_mant b;
            r = n mod f32_mant b
        in f32_round s (2 * q + (if r = 0 then 0 else 1)) (f32_exp2 a - f32_exp2 b - 51))"

text \<open>
  Comparison. Among floats that are not NaN, the order is that of the sign-and-magnitude
  reading of the bit pattern (both zeros read 0); a comparison with a NaN is false.
\<close>

definition f32_key :: "float32 \<Rightarrow> int" where
  "f32_key x = (if f32_sign x then - int (unat (x AND 0x7FFFFFFF)) else int (unat (x AND 0x7FFFFFFF)))"

definition f32_lt :: "float32 \<Rightarrow> float32 \<Rightarrow> bool" where
  "f32_lt a b = (\<not> f32_isnan a \<and> \<not> f32_isnan b \<and> f32_key a < f32_key b)"

definition f32_le :: "float32 \<Rightarrow> float32 \<Rightarrow> bool" where
  "f32_le a b = (\<not> f32_isnan a \<and> \<not> f32_isnan b \<and> f32_key a \<le> f32_key b)"

definition f32_gt :: "float32 \<Rightarrow> float32 \<Rightarrow> bool" where
  "f32_gt a b = f32_lt b a"

text \<open>The real number a finite float stands for.\<close>

definition f32_valof :: "float32 \<Rightarrow> real" where
  "f32_valof x =
     (if f32_sign x then - 1 else 1) *
     (if 0 \<le> f32_exp2 x then real (f32_mant x) * 2 ^ nat (f32_exp2 x)
      else real (f32_mant x) / 2 ^ nat (- f32_exp2 x))"


text \<open>The float literals of the source.\<close>

definition f32_0_0 :: float32 where "f32_0_0 = 0x00000000"
definition f32_1_0 :: float32 where "f32_1_0 = 0x3F800000"
definition f32_50_0 :: float32 where "f32_50_0 = 0x42480000"
definition f32_100_0 :: float32 where "f32_100_0 = 0x42C80000"
definition f32_200_0 :: float32 where "f32_200_0 = 0x43480000"
definition f32_1048576_0 :: float32 where "f32_1048576_0 = 0x49800000"

text \<open>Membership in the closed range from 0 to 100, by the float comparison of the code.\<close>

definition f32_in_0_100 :: "float32 \<Rightarrow> bool" where
  "f32_in_0_100 x = (f32_le f32_0_0 x \<and> f32_le x f32_100_0)"

section \<open>Data model\<close>

record dht20_t =
  i2c_port :: int
  i2c_addr :: u8
  i2c_timeout_ms :: u32

record dht20_sample_t =
  timestamp_us :: u64
  humidity_raw :: u32
  temperature_raw :: u32
  humidity_rh :: float32
  temperature_c :: float32

text \<open>
  The filter state. Its last two fields are called \<^verbatim>\<open>humidity_rh\<close> and
  \<^verbatim>\<open>temperature_c\<close> in the source, like those of the sample.
\<close>

record dht20_filter_t =
  initialized :: bool
  alpha :: float32
  filter_humidity_rh :: float32
  filter_temperature_c :: float32

definition DHT20_STATUS_BUSY_MASK :: u8 where "DHT20_STATUS_BUSY_MASK = push_bit 7 1"
definition DHT20_DATA_LEN :: nat where "DHT20_DATA_LEN = 7"

section \<open>The environment: clock and bus\<close>

text \<open>
  The program reads a monotonic clock (\<^verbatim>\<open>esp_timer_get_time\<close>) and a bus
  (\<^verbatim>\<open>i2c_master_read_from_device\<close>). The world says what the \<open>k\<close>-th call of each
  returns, and counts the calls made so far. A bus read returns an error code and the
  bytes the device delivered.
\<close>

record world =
  clock_script :: "nat \<Rightarrow> i64"
  clock_calls :: nat
  bus_script :: "nat \<Rightarrow> esp_err_t \<times> u8 list"
  bus_calls :: nat

definition esp_timer_get_time :: "world \<Rightarrow> i64 \<times> world" where
  "esp_timer_get_time w = (clock_script w (clock_calls w), w\<lparr>clock_calls := Suc (clock_calls w)\<rparr>)"

text \<open>
  \<^verbatim>\<open>vTaskDelay\<close> only lets time pass. What the clock reads afterwards is the script's
  business, so the world is left as it is.
\<close>

definition vTaskDelay :: "u32 \<Rightarrow> world \<Rightarrow> world" where
  "vTaskDelay ms w = w"

text \<open>
  The delivered bytes overwrite the front of the buffer \<open>rx\<close> of \<open>rx_len\<close> bytes; bytes
  the device did not deliver keep their old contents.
\<close>

definition i2c_master_read_from_device ::
  "int \<Rightarrow> u8 \<Rightarrow> u8 list \<Rightarrow> nat \<Rightarrow> world \<Rightarrow> esp_err_t \<times> u8 list \<times> world" where
  "i2c_master_read_from_device port addr rx rx_len w =
     (case bus_script w (bus_calls w) of (err, data) \<Rightarrow>
        (err, take rx_len (data @ drop (length data) rx), w\<lparr>bus_calls := Suc (bus_calls w)\<rparr>))"

definition dht20_read_raw :: "dht20_t \<Rightarrow> u8 list \<Rightarrow> nat \<Rightarrow> world \<Rightarrow> esp_err_t \<times> u8 list \<times> world" where
  "dht20_read_raw dev rx rx_len w = i2c_master_read_from_device (i2c_port dev) (i2c_addr dev) rx rx_len w"

section \<open>Frame codec\<close>

text \<open>The body of the inner loop of \<^verbatim>\<open>dht20_crc8\<close>, and the loop over the 8 bits.\<close>

definition crc8_step :: "u8 \<Rightarrow> u8" where
  "crc8_step crc = (if crc AND 0x80 \<noteq> 0 then push_bit 1 crc XOR 0x31 else push_bit 1 crc)"

fun crc8_bits :: "nat \<Rightarrow> u8 \<Rightarrow> u8" where
  "crc8_bits 0 crc = crc"
| "crc8_bits (Suc n) crc = crc8_bits n (crc8_step crc)"

function dht20_crc8_loop :: "u8 list \<Rightarrow> nat \<Rightarrow> nat \<Rightarrow> u8 \<Rightarrow> u8" where
  "dht20_crc8_loop data len i crc =
     (if i < len then dht20_crc8_loop data len (Suc i) (crc8_bits 8 (crc XOR data ! i)) else crc)"
  by pat_completeness auto
termination
  by (relation "measure (\<lambda>(data, len, i, crc). len - i)") auto

declare dht20_crc8_loop.simps [simp del]

definition dht20_crc8 :: "u8 list \<Rightarrow> nat \<Rightarrow> u8" where
  "dht20_crc8 data len = dht20_crc8_loop data len 0 0xFF"

text \<open>The two bit-packing expressions of \<^verbatim>\<open>dht20_parse_sample\<close>.\<close>

definition unpack_humidity_raw :: "u8 list \<Rightarrow> u32" where
  "unpack_humidity_raw raw =
     push_bit 12 (ucast (raw ! 1)) OR push_bit 4 (ucast (raw ! 2)) OR drop_bit 4 (ucast (raw ! 3))"

definition unpack_temperature_raw :: "u8 list \<Rightarrow> u32" where
  "unpack_temperature_raw raw =
     push_bit 16 (ucast (raw ! 3) AND 0x0F) OR push_bit 8 (ucast (raw ! 4)) OR ucast (raw ! 5)"

text \<open>The two unit conversions of \<^verbatim>\<open>dht20_parse_sample\<close>.\<close>

definition convert_humidity_rh :: "u32 \<Rightarrow> float32" where
  "convert_humidity_rh h = f32_div (f32_mul (f32_of_u32 h) f32_100_0) f32_1048576_0"

definition convert_temperature_c :: "u32 \<Rightarrow> float32" where
  "convert_temperature_c t = f32_sub (f32_div (f32_mul (f32_of_u32 t) f32_200_0) f32_1048576_0) f32_50_0"

definition dht20_parse_sample :: "u8 list \<Rightarrow> dht20_sample_t \<Rightarrow> world \<Rightarrow> esp_err_t \<times> dht20_sample_t \<times> world" where
  "dht20_parse_sample raw sample w =
     (if raw ! 0 AND DHT20_STATUS_BUSY_MASK \<noteq> 0 then (ESP_ERR_INVALID_STATE, sample, w)
      else if dht20_crc8 raw (DHT20_DATA_LEN - 1) \<noteq> raw ! (DHT20_DATA_LEN - 1)
        then (ESP_ERR_INVALID_CRC, sample, w)
      else
        let h = unpack_humidity_raw raw;
            t = unpack_temperature_raw raw
        in case esp_timer_get_time w of (now, w') \<Rightarrow>
          (ESP_OK,
           sample\<lparr>timestamp_us := now, humidity_raw := h, temperature_raw := t,
             humidity_rh := convert_humidity_rh h, temperature_c := convert_temperature_c t\<rparr>,
           w'))"

definition dht20_clampf :: "float32 \<Rightarrow> float32 \<Rightarrow> float32 \<Rightarrow> float32" where
  "dht20_clampf v min_v max_v =
     (if f32_lt v min_v then min_v else if f32_gt v max_v then max_v else v)"

section \<open>Measurement controller\<close>

text \<open>
  A pointer argument that the code checks against \<^verbatim>\<open>NULL\<close> is an option; the struct it
  points to is passed in and returned.
\<close>

definition dht20_read_measurement ::
  "dht20_t option \<Rightarrow> dht20_sample_t option \<Rightarrow> world \<Rightarrow> esp_err_t \<times> dht20_sample_t option \<times> world" where
  "dht20_read_measurement dev sample w =
     (case dev of None \<Rightarrow> (ESP_ERR_INVALID_ARG, sample, w) | Some d \<Rightarrow>
      case sample of None \<Rightarrow> (ESP_ERR_INVALID_ARG, sample, w) | Some s \<Rightarrow>
      case dht20_read_raw d (replicate DHT20_DATA_LEN 0) DHT20_DATA_LEN w of (ret, raw, w1) \<Rightarrow>
        if ret \<noteq> ESP_OK then (ret, sample, w1)
        else case dht20_parse_sample raw s w1 of (err, s', w2) \<Rightarrow> (err, Some s', w2))"

text \<open>
  The \<^verbatim>\<open>while (true)\<close> loop of \<^verbatim>\<open>dht20_read_measurement_wait\<close>. It need not end, so it
  is a partial function: \<open>None\<close> is the loop that runs forever. The subtraction of the two
  clock readings is the machine's, and the comparison is signed.
\<close>

partial_function (option) dht20_wait_loop ::
  "dht20_t option \<Rightarrow> i64 \<Rightarrow> i64 \<Rightarrow> u32 \<Rightarrow> dht20_sample_t option \<Rightarrow> world
     \<Rightarrow> (esp_err_t \<times> dht20_sample_t option \<times> world) option" where
  "dht20_wait_loop dev start_us timeout_us poll_ms sample w =
     (case dht20_read_measurement dev sample w of (err, sample1, w1) \<Rightarrow>
        if err = ESP_OK then Some (ESP_OK, sample1, w1)
        else if err \<noteq> ESP_ERR_INVALID_STATE then Some (err, sample1, w1)
        else case esp_timer_get_time w1 of (now, w2) \<Rightarrow>
          if sint timeout_us \<le> sint (now - start_us) then Some (ESP_ERR_TIMEOUT, sample1, w2)
          else dht20_wait_loop dev start_us timeout_us poll_ms sample1 (vTaskDelay poll_ms w2))"

definition dht20_read_measurement_wait ::
  "dht20_t option \<Rightarrow> dht20_sample_t option \<Rightarrow> u32 \<Rightarrow> u32 \<Rightarrow> world
     \<Rightarrow> (esp_err_t \<times> dht20_sample_t option \<times> world) option" where
  "dht20_read_measurement_wait dev sample timeout_ms poll_interval_ms w =
     (if dev = None then Some (ESP_ERR_INVALID_ARG, sample, w)
      else if sample = None then Some (ESP_ERR_INVALID_ARG, sample, w)
      else case esp_timer_get_time w of (start_us, w0) \<Rightarrow>
        dht20_wait_loop dev start_us (ucast timeout_ms * 1000)
          (if poll_interval_ms = 0 then 1 else poll_interval_ms) sample w0)"

section \<open>Calibration offset and smoothing filter\<close>

definition dht20_sample_apply_offset ::
  "dht20_sample_t option \<Rightarrow> float32 \<Rightarrow> float32 \<Rightarrow> esp_err_t \<times> dht20_sample_t option" where
  "dht20_sample_apply_offset sample temperature_offset_c humidity_offset_rh =
     (case sample of None \<Rightarrow> (ESP_ERR_INVALID_ARG, None) | Some s \<Rightarrow>
        (ESP_OK,
         Some (s\<lparr>temperature_c := f32_add (temperature_c s) temperature_offset_c,
                humidity_rh := dht20_clampf (f32_add (humidity_rh s) humidity_offset_rh) f32_0_0 f32_100_0\<rparr>)))"

definition dht20_filter_init :: "dht20_filter_t option \<Rightarrow> float32 \<Rightarrow> esp_err_t \<times> dht20_filter_t option" where
  "dht20_filter_init filt a =
     (case filt of None \<Rightarrow> (ESP_ERR_INVALID_ARG, None) | Some f \<Rightarrow>
        if \<not> f32_isfinite a then (ESP_ERR_INVALID_ARG, filt)
        else if \<not> (f32_gt a f32_0_0 \<and> f32_le a f32_1_0) then (ESP_ERR_INVALID_ARG, filt)
        else (ESP_OK,
              Some (f\<lparr>initialized := False, alpha := a,
                     filter_humidity_rh := f32_0_0, filter_temperature_c := f32_0_0\<rparr>)))"

definition dht20_filter_reset :: "dht20_filter_t option \<Rightarrow> dht20_filter_t option" where
  "dht20_filter_reset filt =
     (case filt of None \<Rightarrow> None | Some f \<Rightarrow> Some (f\<lparr>initialized := False\<rparr>))"

text \<open>Returns the error code, the filter state and the output sample.\<close>

definition dht20_filter_apply ::
  "dht20_filter_t option \<Rightarrow> dht20_sample_t option \<Rightarrow> dht20_sample_t option
     \<Rightarrow> esp_err_t \<times> dht20_filter_t option \<times> dht20_sample_t option" where
  "dht20_filter_apply filt input output =
     (case filt of None \<Rightarrow> (ESP_ERR_INVALID_ARG, filt, output) | Some f \<Rightarrow>
      case input of None \<Rightarrow> (ESP_ERR_INVALID_ARG, filt, output) | Some i \<Rightarrow>
      case output of None \<Rightarrow> (ESP_ERR_INVALID_ARG, filt, output) | Some _ \<Rightarrow>
        if \<not> (f32_gt (alpha f) f32_0_0 \<and> f32_le (alpha f) f32_1_0)
          then (ESP_ERR_INVALID_STATE, filt, output)
        else
          let f' =
            (if \<not> initialized f
             then f\<lparr>filter_temperature_c := temperature_c i, filter_humidity_rh := humidity_rh i,
                    initialized := True\<rparr>
             else
               let one_minus_alpha = f32_sub f32_1_0 (alpha f)
               in f\<lparr>filter_temperature_c :=
                       f32_add (f32_mul (alpha f) (temperature_c i)) (f32_mul one_minus_alpha (filter_temperature_c f)),
                     filter_humidity_rh :=
                       f32_add (f32_mul (alpha f) (humidity_rh i)) (f32_mul one_minus_alpha (filter_humidity_rh f))\<rparr>)
          in (ESP_OK, Some f',
              Some (i\<lparr>temperature_c := filter_temperature_c f',
                     humidity_rh := dht20_clampf (filter_humidity_rh f') f32_0_0 f32_100_0\<rparr>)))"

section \<open>The checksum as the specification words it\<close>

text \<open>
  An 8-bit CRC with polynomial \<open>0x31\<close>, initial value \<open>0xFF\<close>, most significant bit first
  and no final XOR, as a shift register fed one message bit at a time: the register is
  shifted left, and the polynomial is added when the bit shifted out differs from the
  message bit. \<open>msb_bits 8 b\<close> lists the bits of the byte \<open>b\<close> from bit 7 down to bit 0.
\<close>

fun msb_bits :: "nat \<Rightarrow> u8 \<Rightarrow> bool list" where
  "msb_bits 0 x = []"
| "msb_bits (Suc n) x = bit x 7 # msb_bits n (push_bit 1 x)"

fun crc_spec_bits :: "u8 \<Rightarrow> u8 \<Rightarrow> bool list \<Rightarrow> u8" where
  "crc_spec_bits poly reg [] = reg"
| "crc_spec_bits poly reg (x # xs) =
     crc_spec_bits poly (if bit reg 7 \<noteq> x then push_bit 1 reg XOR poly else push_bit 1 reg) xs"

definition crc8_spec :: "u8 list \<Rightarrow> u8" where
  "crc8_spec bytes = crc_spec_bits 0x31 0xFF (concat (map (msb_bits 8) bytes))"

section \<open>Runs of the polling loop\<close>

text \<open>
  For stating what a run of the loop does. While every attempt so far has returned
  \<^verbatim>\<open>ESP_ERR_INVALID_STATE\<close>, each iteration has made one bus read and one clock reading and
  has left the sample alone; \<open>attempt d s w k\<close> is the read attempt of iteration \<open>k\<close> of a
  loop entered in world \<open>w\<close>, and \<open>elapsed_at w start_us k\<close> is the elapsed time the loop
  computes after it.
\<close>

definition attempt :: "dht20_t \<Rightarrow> dht20_sample_t \<Rightarrow> world \<Rightarrow> nat \<Rightarrow> esp_err_t \<times> dht20_sample_t option \<times> world" where
  "attempt d s w k =
     dht20_read_measurement (Some d) (Some s) (w\<lparr>clock_calls := clock_calls w + k, bus_calls := bus_calls w + k\<rparr>)"

definition elapsed_at :: "world \<Rightarrow> i64 \<Rightarrow> nat \<Rightarrow> int" where
  "elapsed_at w start_us k = sint (clock_script w (clock_calls w + k) - start_us)"

section \<open>Example values\<close>

definition dev_0 :: dht20_t where
  "dev_0 = \<lparr>i2c_port = 0, i2c_addr = 0x38, i2c_timeout_ms = 100\<rparr>"

definition sample_0 :: dht20_sample_t where
  "sample_0 = \<lparr>timestamp_us = 0, humidity_raw = 0, temperature_raw = 0, humidity_rh = 0, temperature_c = 0\<rparr>"

text \<open>A world whose clock advances 600 ms between readings and whose bus always delivers \<open>frame\<close>.\<close>

definition world_of :: "esp_err_t \<Rightarrow> u8 list \<Rightarrow> world" where
  "world_of err frame =
     \<lparr>clock_script = (\<lambda>k. 600000 * of_nat k), clock_calls = 0,
      bus_script = (\<lambda>k. (err, frame)), bus_calls = 0\<rparr>"

definition frame_ok :: "u8 list" where "frame_ok = [0x00, 0x66, 0x66, 0x66, 0x33, 0x33, 0x65]"
definition frame_busy :: "u8 list" where "frame_busy = [0x80, 1, 2, 3, 4, 5, 0xEE]"
definition frame_corrupt :: "u8 list" where "frame_corrupt = [0x00, 0x66, 0x66, 0x66, 0x33, 0x33, 0x64]"

text \<open>
  A world whose clock stands still and whose bus fails: the first read with the code
  \<^verbatim>\<open>ESP_ERR_INVALID_STATE\<close>, every later one with \<^verbatim>\<open>ESP_FAIL\<close>.
\<close>

definition world_ce :: world where
  "world_ce =
     \<lparr>clock_script = (\<lambda>k. 0), clock_calls = 0,
      bus_script = (\<lambda>k. if k = 0 then (ESP_ERR_INVALID_STATE, []) else (ESP_FAIL, [])), bus_calls = 0\<rparr>"

text \<open>
  A filter state with \<open>\<alpha> = 0.5\<close> that has smoothed 40 % RH and 20 \<degree>C, and a sample of
  60 % RH and 30 \<degree>C.
\<close>

definition filter_0 :: dht20_filter_t where
  "filter_0 = \<lparr>initialized = True, alpha = 0x3F000000,
     filter_humidity_rh = 0x42200000, filter_temperature_c = 0x41A00000\<rparr>"

definition sample_a :: dht20_sample_t where
  "sample_a = \<lparr>timestamp_us = 1000, humidity_raw = 0x9999A, temperature_raw = 0x66666,
     humidity_rh = 0x42700000, temperature_c = 0x41F00000\<rparr>"

text \<open>Samples of 99, 2 and 120 % RH at 20 \<degree>C, and a filter state fresh from init with \<open>\<alpha> = 0.5\<close>.\<close>

definition sample_99 :: dht20_sample_t where
  "sample_99 = \<lparr>timestamp_us = 0, humidity_raw = 0, temperature_raw = 0,
     humidity_rh = 0x42C60000, temperature_c = 0x41A00000\<rparr>"

definition sample_2 :: dht20_sample_t where
  "sample_2 = \<lparr>timestamp_us = 0, humidity_raw = 0, temperature_raw = 0,
     humidity_rh = 0x40000000, temperature_c = 0x41A00000\<rparr>"

definition sample_120 :: dht20_sample_t where
  "sample_120 = \<lparr>timestamp_us = 0, humidity_raw = 0, temperature_raw = 0,
     humidity_rh = 0x42F00000, temperature_c = 0x41A00000\<rparr>"

definition filter_new :: dht20_filter_t where
  "filter_new = \<lparr>initialized = False, alpha = 0x3F000000,
     filter_humidity_rh = 0, filter_temperature_c = 0\<rparr>"

section \<open>Evaluation and basic facts\<close>

lemma busy_mask_bit: "(b AND DHT20_STATUS_BUSY_MASK \<noteq> 0) = bit b 7"
  by (simp add: DHT20_STATUS_BUSY_MASK_def bit_iff_and_push_bit_not_eq_0)

lemma top_bit_test: "((c::u8) AND 0x80 \<noteq> 0) = bit c 7"
  using bit_iff_and_push_bit_not_eq_0 [of c 7] by simp

lemma crc8_step_xor:
  "crc8_step (t XOR x) =
     (if bit t 7 \<noteq> bit x 7 then push_bit 1 t XOR 0x31 else push_bit 1 t) XOR push_bit 1 x"
proof -
  have p: "push_bit 1 (t XOR x) = push_bit 1 t XOR push_bit 1 x"
    by (rule push_bit_xor)
  have b: "bit (t XOR x) 7 = (bit t 7 \<noteq> bit x 7)"
    by (simp add: bit_xor_iff)
  show ?thesis
    unfolding crc8_step_def top_bit_test p b
    by (cases "bit t 7 = bit x 7") (simp_all add: xor.assoc xor.commute xor.left_commute)
qed

lemma crc8_bits_serial:
  "crc8_bits n (t XOR x) = crc_spec_bits 0x31 t (msb_bits n x) XOR push_bit n x"
proof (induction n arbitrary: t x)
  case 0
  show ?case by simp
next
  case (Suc n)
  have "crc8_bits (Suc n) (t XOR x) = crc8_bits n (crc8_step (t XOR x))"
    by simp
  also have "\<dots> = crc8_bits n
      ((if bit t 7 \<noteq> bit x 7 then push_bit 1 t XOR 0x31 else push_bit 1 t) XOR push_bit 1 x)"
    by (simp only: crc8_step_xor)
  also have "\<dots> = crc_spec_bits 0x31 (if bit t 7 \<noteq> bit x 7 then push_bit 1 t XOR 0x31 else push_bit 1 t)
      (msb_bits n (push_bit 1 x)) XOR push_bit n (push_bit 1 x)"
    by (rule Suc.IH)
  also have "push_bit n (push_bit 1 x) = push_bit (Suc n) x"
    by (simp add: push_bit_eq_mult)
  finally show ?case
    by (simp only: msb_bits.simps crc_spec_bits.simps)
qed

lemma crc8_bits_8: "crc8_bits 8 (c XOR b) = crc_spec_bits 0x31 c (msb_bits 8 b)"
proof -
  have "push_bit 8 b = 0"
    by (rule bit_word_eqI) (simp add: bit_push_bit_iff)
  then show ?thesis
    by (simp add: crc8_bits_serial)
qed

lemma msb_bits_map: "n \<le> 8 \<Longrightarrow> msb_bits n x = map (\<lambda>i. bit x (7 - i)) [0..<n]"
proof (induction n arbitrary: x)
  case 0
  show ?case by simp
next
  case (Suc n)
  have "map (\<lambda>i. bit x (7 - i)) [0..<Suc n] = bit x 7 # map (\<lambda>i. bit x (7 - Suc i)) [0..<n]"
    by (simp add: upt_conv_Cons map_Suc_upt [symmetric] del: upt_Suc)
  also have "map (\<lambda>i. bit x (7 - Suc i)) [0..<n] = map (\<lambda>i. bit (push_bit 1 x) (7 - i)) [0..<n]"
  proof (rule map_cong [OF refl])
    fix i assume "i \<in> set [0..<n]"
    with Suc.prems have i: "i < 7" by simp
    have "bit (push_bit 1 x) (7 - i) = (1 \<le> 7 - i \<and> 7 - i < 8 \<and> bit x (7 - i - 1))"
      by (simp only: bit_push_bit_iff possible_bit_word) (simp add: bit_imp_le_length)
    with i show "bit x (7 - Suc i) = bit (push_bit 1 x) (7 - i)"
      by auto
  qed
  also have "\<dots> = msb_bits n (push_bit 1 x)"
    using Suc by simp
  finally show ?case by simp
qed

lemma crc_spec_bits_append:
  "crc_spec_bits poly reg (xs @ ys) = crc_spec_bits poly (crc_spec_bits poly reg xs) ys"
  by (induction xs arbitrary: reg) simp_all

lemma dht20_crc8_loop_foldl:
  "len \<le> length data \<Longrightarrow>
   dht20_crc8_loop data len i crc = foldl (\<lambda>c b. crc8_bits 8 (c XOR b)) crc (drop i (take len data))"
proof (induction data len i crc rule: dht20_crc8_loop.induct)
  case (1 data len i crc)
  show ?case
  proof (cases "i < len")
    case True
    with 1 have "drop i (take len data) = data ! i # drop (Suc i) (take len data)"
      by (simp add: Cons_nth_drop_Suc [symmetric])
    with True 1 show ?thesis
      by (subst dht20_crc8_loop.simps) simp
  next
    case False
    then show ?thesis
      by (subst dht20_crc8_loop.simps) simp
  qed
qed

lemma foldl_crc_spec:
  "foldl (\<lambda>c b. crc8_bits 8 (c XOR b)) crc bs = crc_spec_bits 0x31 crc (concat (map (msb_bits 8) bs))"
  by (induction bs arbitrary: crc) (simp_all add: crc8_bits_8 crc_spec_bits_append)

lemma dht20_crc8_spec: "len \<le> length data \<Longrightarrow> dht20_crc8 data len = crc8_spec (take len data)"
  by (simp add: dht20_crc8_def crc8_spec_def dht20_crc8_loop_foldl foldl_crc_spec)

lemma crc8_bits_unfold: "crc8_bits 8 c = crc8_step (crc8_step (crc8_step (crc8_step (crc8_step (crc8_step (crc8_step (crc8_step c)))))))"
proof -
  have "(8::nat) = Suc (Suc (Suc (Suc (Suc (Suc (Suc (Suc 0)))))))" by simp
  then show ?thesis by (simp only: crc8_bits.simps)
qed


lemma bitlen_numeral [simp]:
  "bitlen 0 = 0"
  "bitlen 1 = 1"
  "bitlen (Suc 0) = 1"
  "bitlen (numeral Num.One) = 1"
  "bitlen (numeral (Num.Bit0 k)) = Suc (bitlen (numeral k))"
  "bitlen (numeral (Num.Bit1 k)) = Suc (bitlen (numeral k))"
  by (subst bitlen.simps, simp)+

lemmas f32_defs = f32_sign_def f32_expo_def f32_frac_def f32_isnan_def f32_isinf_def f32_isfinite_def
  f32_mant_def f32_exp2_def f32_qnan_def f32_zero_def f32_inf_def f32_neg_def f32_round_def
  f32_round_at_def f32_bits_def
  f32_of_u32_def f32_add_def f32_sub_def f32_mul_def f32_div_def f32_key_def f32_lt_def f32_le_def f32_gt_def
  f32_0_0_def f32_1_0_def f32_50_0_def f32_100_0_def f32_200_0_def f32_1048576_0_def Let_def

lemmas esp_err_defs =
  ESP_OK_def ESP_FAIL_def ESP_ERR_INVALID_ARG_def ESP_ERR_INVALID_STATE_def
  ESP_ERR_TIMEOUT_def ESP_ERR_INVALID_CRC_def

lemma esp_err_distinct [simp]:
  "ESP_OK \<noteq> ESP_FAIL"
  "ESP_OK \<noteq> ESP_ERR_INVALID_ARG"
  "ESP_OK \<noteq> ESP_ERR_INVALID_STATE"
  "ESP_OK \<noteq> ESP_ERR_TIMEOUT"
  "ESP_OK \<noteq> ESP_ERR_INVALID_CRC"
  "ESP_FAIL \<noteq> ESP_OK"
  "ESP_FAIL \<noteq> ESP_ERR_INVALID_ARG"
  "ESP_FAIL \<noteq> ESP_ERR_INVALID_STATE"
  "ESP_FAIL \<noteq> ESP_ERR_TIMEOUT"
  "ESP_FAIL \<noteq> ESP_ERR_INVALID_CRC"
  "ESP_ERR_INVALID_ARG \<noteq> ESP_OK"
  "ESP_ERR_INVALID_ARG \<noteq> ESP_FAIL"
  "ESP_ERR_INVALID_ARG \<noteq> ESP_ERR_INVALID_STATE"
  "ESP_ERR_INVALID_ARG \<noteq> ESP_ERR_TIMEOUT"
  "ESP_ERR_INVALID_ARG \<noteq> ESP_ERR_INVALID_CRC"
  "ESP_ERR_INVALID_STATE \<noteq> ESP_OK"
  "ESP_ERR_INVALID_STATE \<noteq> ESP_FAIL"
  "ESP_ERR_INVALID_STATE \<noteq> ESP_ERR_INVALID_ARG"
  "ESP_ERR_INVALID_STATE \<noteq> ESP_ERR_TIMEOUT"
  "ESP_ERR_INVALID_STATE \<noteq> ESP_ERR_INVALID_CRC"
  "ESP_ERR_TIMEOUT \<noteq> ESP_OK"
  "ESP_ERR_TIMEOUT \<noteq> ESP_FAIL"
  "ESP_ERR_TIMEOUT \<noteq> ESP_ERR_INVALID_ARG"
  "ESP_ERR_TIMEOUT \<noteq> ESP_ERR_INVALID_STATE"
  "ESP_ERR_TIMEOUT \<noteq> ESP_ERR_INVALID_CRC"
  "ESP_ERR_INVALID_CRC \<noteq> ESP_OK"
  "ESP_ERR_INVALID_CRC \<noteq> ESP_FAIL"
  "ESP_ERR_INVALID_CRC \<noteq> ESP_ERR_INVALID_ARG"
  "ESP_ERR_INVALID_CRC \<noteq> ESP_ERR_INVALID_STATE"
  "ESP_ERR_INVALID_CRC \<noteq> ESP_ERR_TIMEOUT"
  by (simp_all add: esp_err_defs)

lemmas crc8_eval = dht20_crc8_def dht20_crc8_loop.simps crc8_bits_unfold crc8_step_def

lemma crc_check: "dht20_crc8 [0xBE, 0xEF] 2 = 0x92"
  by (simp add: crc8_eval)

lemma parse_busy:
  "bit (raw ! 0) 7 \<Longrightarrow> dht20_parse_sample raw sample w = (ESP_ERR_INVALID_STATE, sample, w)"
  by (simp add: dht20_parse_sample_def busy_mask_bit)

lemma parse_bad_crc:
  "\<not> bit (raw ! 0) 7 \<Longrightarrow> dht20_crc8 raw 6 \<noteq> raw ! 6 \<Longrightarrow>
   dht20_parse_sample raw sample w = (ESP_ERR_INVALID_CRC, sample, w)"
  by (simp add: dht20_parse_sample_def busy_mask_bit DHT20_DATA_LEN_def)

lemma parse_ok:
  "\<not> bit (raw ! 0) 7 \<Longrightarrow> dht20_crc8 raw 6 = raw ! 6 \<Longrightarrow>
   dht20_parse_sample raw sample w =
     (ESP_OK,
      sample\<lparr>timestamp_us := fst (esp_timer_get_time w),
        humidity_raw := unpack_humidity_raw raw, temperature_raw := unpack_temperature_raw raw,
        humidity_rh := convert_humidity_rh (unpack_humidity_raw raw),
        temperature_c := convert_temperature_c (unpack_temperature_raw raw)\<rparr>,
      snd (esp_timer_get_time w))"
  by (simp add: dht20_parse_sample_def busy_mask_bit DHT20_DATA_LEN_def Let_def split: prod.splits)

lemma parse_cases:
  "fst (dht20_parse_sample raw sample w) =
     (if bit (raw ! 0) 7 then ESP_ERR_INVALID_STATE
      else if dht20_crc8 raw 6 \<noteq> raw ! 6 then ESP_ERR_INVALID_CRC else ESP_OK)"
  by (simp add: parse_busy parse_bad_crc parse_ok)

subsection \<open>Busy frames\<close>

text \<open>
  C2. A 7-byte frame whose status byte has bit 7 set decodes to \<^verbatim>\<open>ESP_ERR_INVALID_STATE\<close>
  (not ready), whatever its checksum byte is: replacing byte 6 by any \<open>c\<close> changes nothing,
  and sample and world are left as they were.
\<close>
theorem busy_frame_is_not_ready:
  assumes "length raw = DHT20_DATA_LEN" and "bit (raw ! 0) 7"
  shows "dht20_parse_sample raw sample w = (ESP_ERR_INVALID_STATE, sample, w) \<and>
         dht20_parse_sample (raw[6 := c]) sample w = (ESP_ERR_INVALID_STATE, sample, w)"
  using assms by (simp add: parse_busy)

theorem busy_frame_is_not_ready_witness:
  "length frame_busy = DHT20_DATA_LEN \<and> bit (frame_busy ! 0) 7 \<and>
   dht20_crc8 frame_busy 6 = frame_busy ! 6 \<and>
   dht20_parse_sample frame_busy sample_0 (world_of ESP_OK frame_busy) =
     (ESP_ERR_INVALID_STATE, sample_0, world_of ESP_OK frame_busy) \<and>
   dht20_parse_sample (frame_busy[6 := 0]) sample_0 (world_of ESP_OK frame_busy) =
     (ESP_ERR_INVALID_STATE, sample_0, world_of ESP_OK frame_busy)"
proof -
  have l: "length frame_busy = DHT20_DATA_LEN" by (simp add: frame_busy_def DHT20_DATA_LEN_def)
  have b: "bit (frame_busy ! 0) 7" by (simp add: frame_busy_def)
  have c: "dht20_crc8 frame_busy 6 = frame_busy ! 6" by (simp add: frame_busy_def crc8_eval)
  from busy_frame_is_not_ready [OF l b, of sample_0 "world_of ESP_OK frame_busy" 0] l b c
  show ?thesis by simp
qed

subsection \<open>Checksum\<close>

text \<open>
  C3. For a 7-byte frame with the busy bit clear, the checksum the code computes over bytes
  0 to 5 is the CRC-8 of the specification (polynomial \<open>0x31\<close>, initial value \<open>0xFF\<close>,
  MSB first, no final XOR); decode returns \<^verbatim>\<open>ESP_ERR_INVALID_CRC\<close> exactly when it differs
  from byte 6, and succeeds exactly when it matches.
\<close>
theorem checksum_decides_decode:
  assumes "length raw = DHT20_DATA_LEN" and "\<not> bit (raw ! 0) 7"
  shows "dht20_crc8 raw (DHT20_DATA_LEN - 1) = crc8_spec (take 6 raw) \<and>
         (fst (dht20_parse_sample raw sample w) = ESP_ERR_INVALID_CRC \<longleftrightarrow> crc8_spec (take 6 raw) \<noteq> raw ! 6) \<and>
         (fst (dht20_parse_sample raw sample w) = ESP_OK \<longleftrightarrow> crc8_spec (take 6 raw) = raw ! 6)"
proof -
  from assms(1) have c: "dht20_crc8 raw 6 = crc8_spec (take 6 raw)"
    by (simp add: dht20_crc8_spec DHT20_DATA_LEN_def)
  with assms show ?thesis
    by (simp add: parse_cases DHT20_DATA_LEN_def esp_err_defs)
qed

theorem checksum_decides_decode_witness:
  "length frame_ok = DHT20_DATA_LEN \<and> \<not> bit (frame_ok ! 0) 7 \<and>
   length frame_corrupt = DHT20_DATA_LEN \<and> \<not> bit (frame_corrupt ! 0) 7 \<and>
   crc8_spec (take 6 frame_ok) = 0x65 \<and> frame_ok ! 6 = 0x65 \<and> frame_corrupt ! 6 = 0x64 \<and>
   fst (dht20_parse_sample frame_ok sample_0 (world_of ESP_OK frame_ok)) = ESP_OK \<and>
   fst (dht20_parse_sample frame_corrupt sample_0 (world_of ESP_OK frame_corrupt)) = ESP_ERR_INVALID_CRC"
proof -
  have l: "length frame_ok = DHT20_DATA_LEN" "length frame_corrupt = DHT20_DATA_LEN"
    by (simp_all add: frame_ok_def frame_corrupt_def DHT20_DATA_LEN_def)
  have b: "\<not> bit (frame_ok ! 0) 7" "\<not> bit (frame_corrupt ! 0) 7"
    by (simp_all add: frame_ok_def frame_corrupt_def)
  have c: "dht20_crc8 frame_ok (DHT20_DATA_LEN - 1) = 0x65"
    by (simp add: frame_ok_def DHT20_DATA_LEN_def crc8_eval)
  have t: "take 6 frame_corrupt = take 6 frame_ok" "frame_ok ! 6 = 0x65" "frame_corrupt ! 6 = 0x64"
    by (simp_all add: frame_ok_def frame_corrupt_def)
  from checksum_decides_decode [OF l(1) b(1), of sample_0 "world_of ESP_OK frame_ok"]
    checksum_decides_decode [OF l(2) b(2), of sample_0 "world_of ESP_OK frame_corrupt"]
    l b c t
  show ?thesis by simp
qed

subsection \<open>Bit packing\<close>

lemma nat_bit_bound: "y < 2 ^ n \<Longrightarrow> bit y k \<Longrightarrow> k < n" for y :: nat
proof -
  assume y: "y < 2 ^ n" and b: "bit y k"
  from y have "take_bit n y = y" by (rule take_bit_nat_eq_self)
  with b have "bit (take_bit n y) k" by simp
  then show "k < n" by (simp add: bit_take_bit_iff)
qed

lemma or_eq_add_shifted: "y < 2 ^ n \<Longrightarrow> push_bit n x OR y = x * 2 ^ n + y" for x y :: nat
proof -
  assume y: "y < 2 ^ n"
  have "push_bit n x + y = push_bit n x OR y"
  proof (rule disjunctive_add)
    fix k
    show "\<not> bit (push_bit n x) k \<or> \<not> bit y k"
      using nat_bit_bound [OF y, of k] by (auto simp: bit_push_bit_iff)
  qed
  then show ?thesis by (simp add: push_bit_eq_mult)
qed

lemma unat_u8_lt: "unat (b :: u8) < 256"
  using unsigned_less [of b] by simp

lemma unat_ucast_u8: "unat (ucast (b :: u8) :: u32) = unat b"
  by (simp add: unsigned_ucast_eq take_bit_nat_eq_self unat_u8_lt [THEN less_trans])

lemma unat_push_ucast_u8:
  "n \<le> 24 \<Longrightarrow> unat (push_bit n (ucast (b :: u8)) :: u32) = push_bit n (unat b)"
proof -
  assume n: "n \<le> 24"
  have "unat b * 2 ^ n < 2 ^ 8 * 2 ^ n"
    using unat_u8_lt [of b] by simp
  also have "\<dots> = 2 ^ (8 + n)" by (simp add: power_add)
  also have "\<dots> \<le> (2::nat) ^ 32" using n by (intro power_increasing) simp_all
  finally have "push_bit n (unat b) < 2 ^ 32" by (simp add: push_bit_eq_mult)
  then show ?thesis
    by (simp add: unsigned_push_bit_eq unat_ucast_u8 take_bit_nat_eq_self)
qed

lemma unat_unpack_humidity_raw:
  "unat (unpack_humidity_raw raw) = unat (raw ! 1) * 2 ^ 12 + unat (raw ! 2) * 2 ^ 4 + unat (raw ! 3) div 2 ^ 4"
proof -
  let ?a = "unat (raw ! 1)" and ?b = "unat (raw ! 2)" and ?c = "unat (raw ! 3)"
  have c: "?c div 2 ^ 4 < 2 ^ 4" using unat_u8_lt [of "raw ! 3"] by simp
  have bc: "?b * 2 ^ 4 + ?c div 2 ^ 4 < 2 ^ 12" using unat_u8_lt [of "raw ! 2"] c by simp
  have "unat (unpack_humidity_raw raw) = push_bit 12 ?a OR (push_bit 4 ?b OR ?c div 2 ^ 4)"
    by (simp only: unpack_humidity_raw_def unsigned_or_eq unat_push_ucast_u8 unat_drop_bit_eq
          unat_ucast_u8 drop_bit_eq_div or.assoc) (simp add: unat_div_distrib unat_ucast_u8)
  also have "push_bit 4 ?b OR ?c div 2 ^ 4 = ?b * 2 ^ 4 + ?c div 2 ^ 4"
    by (rule or_eq_add_shifted [OF c])
  also have "push_bit 12 ?a OR (?b * 2 ^ 4 + ?c div 2 ^ 4) = ?a * 2 ^ 12 + (?b * 2 ^ 4 + ?c div 2 ^ 4)"
    by (rule or_eq_add_shifted [OF bc])
  finally show ?thesis by simp
qed

lemma unat_unpack_temperature_raw:
  "unat (unpack_temperature_raw raw) = unat (raw ! 3) mod 2 ^ 4 * 2 ^ 16 + unat (raw ! 4) * 2 ^ 8 + unat (raw ! 5)"
proof -
  let ?a = "unat (raw ! 3)" and ?b = "unat (raw ! 4)" and ?c = "unat (raw ! 5)"
  have c: "?c < 2 ^ 8" using unat_u8_lt [of "raw ! 5"] by simp
  have bc: "?b * 2 ^ 8 + ?c < 2 ^ 16" using unat_u8_lt [of "raw ! 4"] c by simp
  have m: "unat ((ucast (raw ! 3) :: u32) AND 0x0F) = ?a mod 2 ^ 4"
  proof -
    have "(ucast (raw ! 3) :: u32) AND 0x0F = take_bit 4 (ucast (raw ! 3))"
      by (simp add: take_bit_eq_mask mask_eq_exp_minus_1)
    then show ?thesis
      by (simp add: unsigned_take_bit_eq unat_ucast_u8 take_bit_eq_mod unat_mod_distrib)
  qed
  have p: "unat (push_bit 16 ((ucast (raw ! 3) :: u32) AND 0x0F)) = push_bit 16 (?a mod 2 ^ 4)"
  proof -
    have "?a mod 2 ^ 4 * 2 ^ 16 < 2 ^ 4 * 2 ^ 16" by simp
    then have "push_bit 16 (?a mod 2 ^ 4) < 2 ^ 32" by (simp add: push_bit_eq_mult)
    then show ?thesis
      by (simp only: unsigned_push_bit_eq m) (simp add: take_bit_nat_eq_self)
  qed
  have "unat (unpack_temperature_raw raw) = push_bit 16 (?a mod 2 ^ 4) OR (push_bit 8 ?b OR ?c)"
    by (simp only: unpack_temperature_raw_def unsigned_or_eq unat_push_ucast_u8 p unat_ucast_u8 or.assoc)
  also have "push_bit 8 ?b OR ?c = ?b * 2 ^ 8 + ?c"
    by (rule or_eq_add_shifted [OF c])
  also have "push_bit 16 (?a mod 2 ^ 4) OR (?b * 2 ^ 8 + ?c) = ?a mod 2 ^ 4 * 2 ^ 16 + (?b * 2 ^ 8 + ?c)"
    by (rule or_eq_add_shifted [OF bc])
  finally show ?thesis by simp
qed

lemma unpack_humidity_raw_lt: "unat (unpack_humidity_raw raw) < 2 ^ 20"
  using unat_u8_lt [of "raw ! 1"] unat_u8_lt [of "raw ! 2"] unat_u8_lt [of "raw ! 3"]
  by (simp add: unat_unpack_humidity_raw)

lemma unpack_temperature_raw_lt: "unat (unpack_temperature_raw raw) < 2 ^ 20"
proof -
  have "unat (raw ! 3) mod 2 ^ 4 < 2 ^ 4" by simp
  then show ?thesis
    using unat_u8_lt [of "raw ! 4"] unat_u8_lt [of "raw ! 5"]
    by (simp add: unat_unpack_temperature_raw)
qed


text \<open>
  C4. On a 7-byte frame that decodes successfully, the raw humidity count is
  \<open>(b1<<12)|(b2<<4)|(b3>>4)\<close> and the raw temperature count is
  \<open>((b3&0x0F)<<16)|(b4<<8)|b5\<close>; read as numbers the fields do not overlap, and both
  counts are below \<open>2^20\<close>.
\<close>

theorem raw_counts_unpacked:
  assumes "length raw = DHT20_DATA_LEN"
    and "dht20_parse_sample raw sample w = (ESP_OK, sample', w')"
  shows "humidity_raw sample' =
           push_bit 12 (ucast (raw ! 1)) OR push_bit 4 (ucast (raw ! 2)) OR drop_bit 4 (ucast (raw ! 3)) \<and>
         temperature_raw sample' =
           push_bit 16 (ucast (raw ! 3) AND 0x0F) OR push_bit 8 (ucast (raw ! 4)) OR ucast (raw ! 5) \<and>
         unat (humidity_raw sample') =
           unat (raw ! 1) * 2 ^ 12 + unat (raw ! 2) * 2 ^ 4 + unat (raw ! 3) div 2 ^ 4 \<and>
         unat (temperature_raw sample') =
           unat (raw ! 3) mod 2 ^ 4 * 2 ^ 16 + unat (raw ! 4) * 2 ^ 8 + unat (raw ! 5) \<and>
         unat (humidity_raw sample') < 2 ^ 20 \<and> unat (temperature_raw sample') < 2 ^ 20"
proof -
  from assms(2) have ok: "fst (dht20_parse_sample raw sample w) = ESP_OK" by simp
  then have b: "\<not> bit (raw ! 0) 7" and c: "dht20_crc8 raw 6 = raw ! 6"
    by (auto simp: parse_cases esp_err_defs split: if_splits)
  from assms(2) have h: "humidity_raw sample' = unpack_humidity_raw raw"
    and t: "temperature_raw sample' = unpack_temperature_raw raw"
    by (auto simp: parse_ok [OF b c])
  show ?thesis
    unfolding h t
    using unpack_humidity_raw_lt [of raw] unpack_temperature_raw_lt [of raw]
    by (simp add: unat_unpack_humidity_raw unat_unpack_temperature_raw)
      (simp add: unpack_humidity_raw_def unpack_temperature_raw_def)
qed

lemma frame_ok_decodes: "fst (dht20_parse_sample frame_ok sample w) = ESP_OK"
  by (simp add: parse_cases frame_ok_def crc8_eval)

theorem raw_counts_unpacked_witness:
  "length frame_ok = DHT20_DATA_LEN \<and>
   fst (dht20_parse_sample frame_ok sample_0 (world_of ESP_OK frame_ok)) = ESP_OK \<and>
   humidity_raw (fst (snd (dht20_parse_sample frame_ok sample_0 (world_of ESP_OK frame_ok)))) = 0x66666 \<and>
   temperature_raw (fst (snd (dht20_parse_sample frame_ok sample_0 (world_of ESP_OK frame_ok)))) = 0x63333"
proof -
  let ?r = "dht20_parse_sample frame_ok sample_0 (world_of ESP_OK frame_ok)"
  have l: "length frame_ok = DHT20_DATA_LEN" by (simp add: frame_ok_def DHT20_DATA_LEN_def)
  have r: "?r = (ESP_OK, fst (snd ?r), snd (snd ?r))"
    using frame_ok_decodes [of sample_0 "world_of ESP_OK frame_ok"] by (simp add: prod_eq_iff)
  have ok: "fst ?r = ESP_OK" by (rule frame_ok_decodes)
  from raw_counts_unpacked [OF l r]
  have "humidity_raw (fst (snd ?r)) = 0x66666 \<and> temperature_raw (fst (snd ?r)) = 0x63333"
    by (simp add: frame_ok_def)
  with l ok show ?thesis by simp
qed

lemma parse_failure_keeps:
  "fst (dht20_parse_sample raw sample w) \<noteq> ESP_OK \<Longrightarrow>
   snd (dht20_parse_sample raw sample w) = (sample, w)"
  by (cases "bit (raw ! 0) 7"; cases "dht20_crc8 raw 6 = raw ! 6")
    (simp_all add: parse_busy parse_bad_crc parse_ok)

lemma read_measurement_Some:
  "dht20_read_measurement (Some d) (Some s) w =
     (let r = dht20_read_raw d (replicate DHT20_DATA_LEN 0) DHT20_DATA_LEN w
      in if fst r \<noteq> ESP_OK then (fst r, Some s, snd (snd r))
         else let p = dht20_parse_sample (fst (snd r)) s (snd (snd r))
              in (fst p, Some (fst (snd p)), snd (snd p)))"
  by (simp add: dht20_read_measurement_def Let_def split: prod.splits)

lemma read_measurement_None:
  "dht20_read_measurement None sample w = (ESP_ERR_INVALID_ARG, sample, w)"
  "dht20_read_measurement dev None w = (ESP_ERR_INVALID_ARG, None, w)"
  by (simp_all add: dht20_read_measurement_def split: option.splits)

text \<open>
  C10. When \<^verbatim>\<open>dht20_read_measurement\<close> returns anything but \<^verbatim>\<open>ESP_OK\<close>, the caller's sample
  is what it was before the call. When it returns \<^verbatim>\<open>ESP_OK\<close>, the bus read succeeded, and
  the frame read had its busy bit clear and a matching checksum: the sample is written
  only after these checks.
\<close>

theorem failed_read_keeps_sample:
  "(fst (dht20_read_measurement dev sample w) \<noteq> ESP_OK \<longrightarrow>
      fst (snd (dht20_read_measurement dev sample w)) = sample) \<and>
   (fst (dht20_read_measurement dev sample w) = ESP_OK \<longrightarrow>
      (\<exists>d s. dev = Some d \<and> sample = Some s \<and>
         (case dht20_read_raw d (replicate DHT20_DATA_LEN 0) DHT20_DATA_LEN w of (ret, raw, w1) \<Rightarrow>
            ret = ESP_OK \<and> \<not> bit (raw ! 0) 7 \<and> dht20_crc8 raw 6 = raw ! 6)))"
proof (cases dev)
  case None
  then show ?thesis by (simp add: read_measurement_None esp_err_defs)
next
  case d: (Some d)
  show ?thesis
  proof (cases sample)
    case None
    then show ?thesis by (simp add: read_measurement_None esp_err_defs)
  next
    case s: (Some s)
    obtain ret raw w1 where r: "dht20_read_raw d (replicate DHT20_DATA_LEN 0) DHT20_DATA_LEN w = (ret, raw, w1)"
      by (cases "dht20_read_raw d (replicate DHT20_DATA_LEN 0) DHT20_DATA_LEN w") auto
    show ?thesis
    proof (cases "ret = ESP_OK")
      case False
      with d s r show ?thesis by (simp add: read_measurement_Some Let_def)
    next
      case True
      have k: "fst (dht20_parse_sample raw s w1) \<noteq> ESP_OK \<Longrightarrow> fst (snd (dht20_parse_sample raw s w1)) = s"
        using parse_failure_keeps [of raw s w1] by simp
      have c: "fst (dht20_parse_sample raw s w1) = ESP_OK \<Longrightarrow> \<not> bit (raw ! 0) 7 \<and> dht20_crc8 raw 6 = raw ! 6"
        by (auto simp: parse_cases esp_err_defs split: if_splits)
      from d s r True k c show ?thesis
        by (auto simp: read_measurement_Some Let_def)
    qed
  qed
qed

theorem failed_read_keeps_sample_witness:
  "fst (dht20_read_measurement (Some dev_0) (Some sample_0) (world_of ESP_OK frame_busy)) = ESP_ERR_INVALID_STATE \<and>
   fst (snd (dht20_read_measurement (Some dev_0) (Some sample_0) (world_of ESP_OK frame_busy))) = Some sample_0 \<and>
   fst (dht20_read_measurement (Some dev_0) (Some sample_0) (world_of ESP_FAIL [])) = ESP_FAIL \<and>
   fst (snd (dht20_read_measurement (Some dev_0) (Some sample_0) (world_of ESP_FAIL []))) = Some sample_0 \<and>
   fst (dht20_read_measurement (Some dev_0) (Some sample_0) (world_of ESP_OK frame_ok)) = ESP_OK \<and>
   dht20_read_raw dev_0 (replicate DHT20_DATA_LEN 0) DHT20_DATA_LEN (world_of ESP_OK frame_ok) =
     (ESP_OK, frame_ok, world_of ESP_OK frame_ok\<lparr>bus_calls := 1\<rparr>)"
proof -
  have raw: "dht20_read_raw dev_0 (replicate DHT20_DATA_LEN 0) DHT20_DATA_LEN (world_of e f) =
      (e, take 7 (f @ drop (length f) (replicate 7 0)), world_of e f\<lparr>bus_calls := 1\<rparr>)" for e f
    by (simp add: dht20_read_raw_def i2c_master_read_from_device_def world_of_def DHT20_DATA_LEN_def)
  have 1: "fst (dht20_read_measurement (Some dev_0) (Some sample_0) (world_of ESP_OK frame_busy)) = ESP_ERR_INVALID_STATE"
    by (simp add: read_measurement_Some Let_def raw parse_cases frame_busy_def)
  have 2: "fst (dht20_read_measurement (Some dev_0) (Some sample_0) (world_of ESP_FAIL [])) = ESP_FAIL"
    by (simp add: read_measurement_Some Let_def raw esp_err_defs)
  have 3: "fst (dht20_read_measurement (Some dev_0) (Some sample_0) (world_of ESP_OK frame_ok)) = ESP_OK"
    by (simp add: read_measurement_Some Let_def raw parse_cases frame_ok_def crc8_eval)
  have 4: "take 7 (frame_ok @ drop (length frame_ok) (replicate 7 0)) = frame_ok"
    by (simp add: frame_ok_def)
  from failed_read_keeps_sample [of "Some dev_0" "Some sample_0" "world_of ESP_OK frame_busy"]
    failed_read_keeps_sample [of "Some dev_0" "Some sample_0" "world_of ESP_FAIL []"]
    failed_read_keeps_sample [of "Some dev_0" "Some sample_0" "world_of ESP_OK frame_ok"]
    1 2 3 raw [of ESP_OK frame_ok] 4
  show ?thesis
    by (simp add: esp_err_defs)
qed

subsection \<open>Polling with a timeout\<close>

lemma read_raw_world:
  "snd (snd (dht20_read_raw d rx n w)) = w\<lparr>bus_calls := Suc (bus_calls w)\<rparr>"
  by (simp add: dht20_read_raw_def i2c_master_read_from_device_def split: prod.splits)

lemma not_ready_keeps:
  assumes "fst (dht20_read_measurement (Some d) (Some s) w) = ESP_ERR_INVALID_STATE"
  shows "dht20_read_measurement (Some d) (Some s) w = (ESP_ERR_INVALID_STATE, Some s, w\<lparr>bus_calls := Suc (bus_calls w)\<rparr>)"
proof -
  let ?r = "dht20_read_raw d (replicate DHT20_DATA_LEN 0) DHT20_DATA_LEN w"
  have w1: "snd (snd ?r) = w\<lparr>bus_calls := Suc (bus_calls w)\<rparr>" by (rule read_raw_world)
  show ?thesis
  proof (cases "fst ?r = ESP_OK")
    case False
    with assms w1 show ?thesis by (simp add: read_measurement_Some Let_def)
  next
    case True
    with assms have "fst (dht20_parse_sample (fst (snd ?r)) s (snd (snd ?r))) = ESP_ERR_INVALID_STATE"
      by (simp add: read_measurement_Some Let_def)
    then have "fst (dht20_parse_sample (fst (snd ?r)) s (snd (snd ?r))) \<noteq> ESP_OK"
      by (simp add: esp_err_defs)
    then have "snd (dht20_parse_sample (fst (snd ?r)) s (snd (snd ?r))) = (s, snd (snd ?r))"
      by (rule parse_failure_keeps)
    with assms True w1 show ?thesis by (simp add: read_measurement_Some Let_def prod_eq_iff)
  qed
qed

lemma wait_loop_run:
  assumes "dht20_wait_loop dev start_us timeout_us poll sample w = Some r"
    and "dev = Some d" and "sample = Some s"
  shows "\<exists>n. (\<forall>k<n. fst (attempt d s w k) = ESP_ERR_INVALID_STATE \<and> elapsed_at w start_us k < sint timeout_us) \<and>
           (if fst (attempt d s w n) = ESP_ERR_INVALID_STATE
            then sint timeout_us \<le> elapsed_at w start_us n \<and>
                 r = (ESP_ERR_TIMEOUT, Some s, w\<lparr>clock_calls := clock_calls w + n + 1, bus_calls := bus_calls w + n + 1\<rparr>)
            else r = attempt d s w n)"
  using assms(2,3)
proof (induction rule: dht20_wait_loop.raw_induct [OF _ assms(1)])
  case (1 loop dev start_us timeout_us poll sample w r)
  let ?a = "dht20_read_measurement (Some d) (Some s) w"
  have a0: "attempt d s w 0 = ?a" by (simp add: attempt_def)
  show ?case
  proof (cases "fst ?a = ESP_ERR_INVALID_STATE")
    case False
    with 1(2-) have "r = ?a"
      by (auto simp: prod_eq_iff split: prod.splits if_splits)
    with False a0 show ?thesis by (intro exI [of _ 0]) simp
  next
    case True
    then have a: "?a = (ESP_ERR_INVALID_STATE, Some s, w\<lparr>bus_calls := Suc (bus_calls w)\<rparr>)"
      by (rule not_ready_keeps)
    let ?w2 = "w\<lparr>bus_calls := Suc (bus_calls w), clock_calls := Suc (clock_calls w)\<rparr>"
    have e0: "elapsed_at w start_us 0 = sint (clock_script w (clock_calls w) - start_us)"
      by (simp add: elapsed_at_def)
    show ?thesis
    proof (cases "sint timeout_us \<le> sint (clock_script w (clock_calls w) - start_us)")
      case t: True
      with 1(2-) a have "r = (ESP_ERR_TIMEOUT, Some s, ?w2)"
        by (simp add: esp_timer_get_time_def esp_err_defs)
      with True t a0 e0 show ?thesis by (intro exI [of _ 0]) simp
    next
      case f: False
      with 1(2-) a have "loop (Some d) start_us timeout_us poll (Some s) ?w2 = Some r"
        by (simp add: esp_timer_get_time_def esp_err_defs vTaskDelay_def)
      from 1(1) [OF this refl refl] obtain n where
        n: "\<forall>k<n. fst (attempt d s ?w2 k) = ESP_ERR_INVALID_STATE \<and> elapsed_at ?w2 start_us k < sint timeout_us"
          "if fst (attempt d s ?w2 n) = ESP_ERR_INVALID_STATE
            then sint timeout_us \<le> elapsed_at ?w2 start_us n \<and>
                 r = (ESP_ERR_TIMEOUT, Some s, ?w2\<lparr>clock_calls := clock_calls ?w2 + n + 1, bus_calls := bus_calls ?w2 + n + 1\<rparr>)
            else r = attempt d s ?w2 n"
        by blast
      have sh: "attempt d s ?w2 k = attempt d s w (Suc k)" "elapsed_at ?w2 start_us k = elapsed_at w start_us (Suc k)" for k
        by (simp_all add: attempt_def elapsed_at_def)
      have "\<forall>k<Suc n. fst (attempt d s w k) = ESP_ERR_INVALID_STATE \<and> elapsed_at w start_us k < sint timeout_us"
      proof (intro allI impI)
        fix k assume "k < Suc n"
        then show "fst (attempt d s w k) = ESP_ERR_INVALID_STATE \<and> elapsed_at w start_us k < sint timeout_us"
          using n(1) [unfolded sh] True f a0 e0 by (cases k) simp_all
      qed
      moreover from n(2) [unfolded sh] have "if fst (attempt d s w (Suc n)) = ESP_ERR_INVALID_STATE
            then sint timeout_us \<le> elapsed_at w start_us (Suc n) \<and>
                 r = (ESP_ERR_TIMEOUT, Some s, w\<lparr>clock_calls := clock_calls w + Suc n + 1, bus_calls := bus_calls w + Suc n + 1\<rparr>)
            else r = attempt d s w (Suc n)"
        by simp
      ultimately show ?thesis by (intro exI [of _ "Suc n"]) blast
    qed
  qed
qed


lemma wait_loop_returns:
  assumes "\<forall>k<n. fst (attempt d s w k) = ESP_ERR_INVALID_STATE \<and> elapsed_at w start_us k < sint timeout_us"
    and "fst (attempt d s w n) = ESP_ERR_INVALID_STATE \<longrightarrow> sint timeout_us \<le> elapsed_at w start_us n"
  shows "dht20_wait_loop (Some d) start_us timeout_us poll (Some s) w =
           Some (if fst (attempt d s w n) = ESP_ERR_INVALID_STATE
                 then (ESP_ERR_TIMEOUT, Some s, w\<lparr>clock_calls := clock_calls w + n + 1, bus_calls := bus_calls w + n + 1\<rparr>)
                 else attempt d s w n)"
  using assms
proof (induction n arbitrary: w)
  case 0
  let ?a = "dht20_read_measurement (Some d) (Some s) w"
  have a0: "attempt d s w 0 = ?a" by (simp add: attempt_def)
  have e0: "elapsed_at w start_us 0 = sint (clock_script w (clock_calls w) - start_us)"
    by (simp add: elapsed_at_def)
  show ?case
  proof (cases "fst ?a = ESP_ERR_INVALID_STATE")
    case False
    then show ?thesis
      by (subst dht20_wait_loop.simps) (auto simp: a0 prod_eq_iff split: prod.splits)
  next
    case True
    then have a: "?a = (ESP_ERR_INVALID_STATE, Some s, w\<lparr>bus_calls := Suc (bus_calls w)\<rparr>)"
      by (rule not_ready_keeps)
    from 0(2) True have "sint timeout_us \<le> sint (clock_script w (clock_calls w) - start_us)"
      by (simp add: a0 e0)
    with True a show ?thesis
      by (subst dht20_wait_loop.simps) (simp add: a0 esp_timer_get_time_def esp_err_defs)
  qed
next
  case (Suc n)
  let ?a = "dht20_read_measurement (Some d) (Some s) w"
  let ?w2 = "w\<lparr>bus_calls := Suc (bus_calls w), clock_calls := Suc (clock_calls w)\<rparr>"
  have a0: "attempt d s w 0 = ?a" by (simp add: attempt_def)
  have e0: "elapsed_at w start_us 0 = sint (clock_script w (clock_calls w) - start_us)"
    by (simp add: elapsed_at_def)
  have sh: "attempt d s w (Suc k) = attempt d s ?w2 k" "elapsed_at w start_us (Suc k) = elapsed_at ?w2 start_us k" for k
    by (simp_all add: attempt_def elapsed_at_def)
  from Suc.prems(1) have b: "fst ?a = ESP_ERR_INVALID_STATE"
    and t: "\<not> sint timeout_us \<le> sint (clock_script w (clock_calls w) - start_us)"
    by (auto simp: a0 [symmetric] e0 [symmetric])
  from b have a: "?a = (ESP_ERR_INVALID_STATE, Some s, w\<lparr>bus_calls := Suc (bus_calls w)\<rparr>)"
    by (rule not_ready_keeps)
  have 1: "\<forall>k<n. fst (attempt d s ?w2 k) = ESP_ERR_INVALID_STATE \<and> elapsed_at ?w2 start_us k < sint timeout_us"
    using Suc.prems(1) by (auto simp: sh [symmetric])
  have 2: "fst (attempt d s ?w2 n) = ESP_ERR_INVALID_STATE \<longrightarrow> sint timeout_us \<le> elapsed_at ?w2 start_us n"
    using Suc.prems(2) by (simp add: sh)
  have "dht20_wait_loop (Some d) start_us timeout_us poll (Some s) w =
        dht20_wait_loop (Some d) start_us timeout_us poll (Some s) ?w2"
    using a t by (subst dht20_wait_loop.simps) (simp add: esp_timer_get_time_def esp_err_defs vTaskDelay_def)
  also note Suc.IH [OF 1 2]
  finally show ?case
    unfolding sh by simp
qed

lemma sint_timeout_us: "sint (ucast (timeout_ms :: u32) * 1000 :: i64) = int (unat timeout_ms) * 1000"
proof -
  have u: "uint (ucast timeout_ms :: i64) = uint timeout_ms"
    by (simp add: uint_up_ucast is_up)
  have lt: "uint timeout_ms < 2 ^ 32"
    using uint_lt2p [of timeout_ms] by simp
  have "uint (ucast timeout_ms :: i64) * uint (1000 :: i64) < 2 ^ LENGTH(64)"
    using lt by (simp add: u)
  then have "uint (ucast timeout_ms * 1000 :: i64) = uint (ucast timeout_ms :: i64) * uint (1000 :: i64)"
    by (rule uint_mult_lem [THEN iffD1])
  then have m: "uint (ucast timeout_ms * 1000 :: i64) = uint timeout_ms * 1000"
    by (simp add: u)
  have "sint (ucast timeout_ms * 1000 :: i64) = signed_take_bit 63 (uint timeout_ms * 1000)"
    by (simp add: sint_uint m)
  also have "\<dots> = uint timeout_ms * 1000"
  proof (rule signed_take_bit_int_eq_self)
    have "- (2 ^ 63) \<le> (0::int)" by simp
    also have "0 \<le> uint timeout_ms * 1000" by simp
    finally show "- (2 ^ 63) \<le> uint timeout_ms * 1000" .
    from lt show "uint timeout_ms * 1000 < 2 ^ 63" by simp
  qed
  finally show ?thesis by simp
qed

lemma elapsed_no_wrap:
  "0 \<le> sint start_us \<Longrightarrow> sint start_us \<le> sint now \<Longrightarrow> sint (now - start_us) = sint now - sint start_us"
  for now start_us :: i64
proof -
  assume a: "0 \<le> sint start_us" "sint start_us \<le> sint now"
  have "sint now < 2 ^ 63" using sint_lt [of now] by simp
  with a have "signed_take_bit 63 (sint now - sint start_us) = sint now - sint start_us"
    by (intro signed_take_bit_int_eq_self) simp_all
  then show ?thesis by (simp add: sint_word_ariths)
qed


lemma attempt_code:
  "fst (attempt d s w k) =
     (case bus_script w (bus_calls w + k) of (ret, data) \<Rightarrow>
        let raw = take DHT20_DATA_LEN (data @ drop (length data) (replicate DHT20_DATA_LEN 0))
        in if ret \<noteq> ESP_OK then ret
           else if bit (raw ! 0) 7 then ESP_ERR_INVALID_STATE
           else if dht20_crc8 raw 6 \<noteq> raw ! 6 then ESP_ERR_INVALID_CRC
           else ESP_OK)"
  by (simp add: attempt_def read_measurement_Some dht20_read_raw_def i2c_master_read_from_device_def
      parse_cases Let_def split: prod.splits)

text \<open>
  C1 (amended). A call of \<^verbatim>\<open>dht20_read_measurement_wait\<close> with non-null arguments returns \<open>r\<close>
  exactly when, for some \<open>n\<close>: the attempts \<open>0..n-1\<close> all returned \<^verbatim>\<open>ESP_ERR_INVALID_STATE\<close>
  with the elapsed time read after each below the timeout (so each was followed by another
  attempt); and attempt \<open>n\<close> either returned another code, and \<open>r\<close> is that attempt's
  result with no further attempt made, or returned \<^verbatim>\<open>ESP_ERR_INVALID_STATE\<close> with the elapsed
  time at or above \<open>timeout_ms * 1000\<close> microseconds, and \<open>r\<close> is \<^verbatim>\<open>ESP_ERR_TIMEOUT\<close>. The
  elapsed time is counted from the clock reading taken just before the first attempt.
\<close>

theorem poll_run:
  fixes w :: world and timeout_ms poll_interval_ms :: u32
  defines "w0 \<equiv> w\<lparr>clock_calls := Suc (clock_calls w)\<rparr>"
    and "start_us \<equiv> clock_script w (clock_calls w)"
    and "T \<equiv> int (unat timeout_ms) * 1000"
  shows "dht20_read_measurement_wait (Some d) (Some s) timeout_ms poll_interval_ms w = Some r \<longleftrightarrow>
     (\<exists>n. (\<forall>k<n. fst (attempt d s w0 k) = ESP_ERR_INVALID_STATE \<and> elapsed_at w0 start_us k < T) \<and>
          (if fst (attempt d s w0 n) = ESP_ERR_INVALID_STATE
           then T \<le> elapsed_at w0 start_us n \<and>
                r = (ESP_ERR_TIMEOUT, Some s,
                     w0\<lparr>clock_calls := clock_calls w0 + n + 1, bus_calls := bus_calls w0 + n + 1\<rparr>)
           else r = attempt d s w0 n))"
proof -
  let ?p = "if poll_interval_ms = 0 then 1 else poll_interval_ms"
  have top: "dht20_read_measurement_wait (Some d) (Some s) timeout_ms poll_interval_ms w =
      dht20_wait_loop (Some d) start_us (ucast timeout_ms * 1000) ?p (Some s) w0"
    by (simp add: dht20_read_measurement_wait_def esp_timer_get_time_def w0_def start_us_def)
  have T: "sint (ucast timeout_ms * 1000 :: i64) = T"
    by (simp add: sint_timeout_us T_def)
  show ?thesis
  proof
    assume "dht20_read_measurement_wait (Some d) (Some s) timeout_ms poll_interval_ms w = Some r"
    then have "dht20_wait_loop (Some d) start_us (ucast timeout_ms * 1000) ?p (Some s) w0 = Some r"
      by (simp only: top)
    from wait_loop_run [OF this refl refl] show "\<exists>n. (\<forall>k<n. fst (attempt d s w0 k) = ESP_ERR_INVALID_STATE \<and> elapsed_at w0 start_us k < T) \<and>
          (if fst (attempt d s w0 n) = ESP_ERR_INVALID_STATE
           then T \<le> elapsed_at w0 start_us n \<and>
                r = (ESP_ERR_TIMEOUT, Some s,
                     w0\<lparr>clock_calls := clock_calls w0 + n + 1, bus_calls := bus_calls w0 + n + 1\<rparr>)
           else r = attempt d s w0 n)"
      by (simp only: T)
  next
    assume "\<exists>n. (\<forall>k<n. fst (attempt d s w0 k) = ESP_ERR_INVALID_STATE \<and> elapsed_at w0 start_us k < T) \<and>
          (if fst (attempt d s w0 n) = ESP_ERR_INVALID_STATE
           then T \<le> elapsed_at w0 start_us n \<and>
                r = (ESP_ERR_TIMEOUT, Some s,
                     w0\<lparr>clock_calls := clock_calls w0 + n + 1, bus_calls := bus_calls w0 + n + 1\<rparr>)
           else r = attempt d s w0 n)"
    then obtain n where
      1: "\<forall>k<n. fst (attempt d s w0 k) = ESP_ERR_INVALID_STATE \<and> elapsed_at w0 start_us k < sint (ucast timeout_ms * 1000 :: i64)"
      and 2: "if fst (attempt d s w0 n) = ESP_ERR_INVALID_STATE
           then sint (ucast timeout_ms * 1000 :: i64) \<le> elapsed_at w0 start_us n \<and>
                r = (ESP_ERR_TIMEOUT, Some s,
                     w0\<lparr>clock_calls := clock_calls w0 + n + 1, bus_calls := bus_calls w0 + n + 1\<rparr>)
           else r = attempt d s w0 n"
      unfolding T by blast
    from 2 have 3: "fst (attempt d s w0 n) = ESP_ERR_INVALID_STATE \<longrightarrow>
        sint (ucast timeout_ms * 1000 :: i64) \<le> elapsed_at w0 start_us n"
      by (simp split: if_splits)
    from wait_loop_returns [OF 1 3, of ?p] 2
    show "dht20_read_measurement_wait (Some d) (Some s) timeout_ms poll_interval_ms w = Some r"
      by (auto simp: top split: if_splits)
  qed
qed

lemma attempt_busy_world:
  "fst (attempt dev_0 sample_0 (world_of ESP_OK frame_busy\<lparr>clock_calls := c\<rparr>) k) = ESP_ERR_INVALID_STATE"
  by (simp add: attempt_code world_of_def frame_busy_def DHT20_DATA_LEN_def)

lemma elapsed_busy_world:
  "elapsed_at (world_of e f\<lparr>clock_calls := Suc 0\<rparr>) 0 0 = 600000"
  "elapsed_at (world_of e f\<lparr>clock_calls := Suc 0\<rparr>) 0 (Suc 0) = 1200000"
  by (simp_all add: elapsed_at_def world_of_def)

theorem poll_run_witness:
  "dht20_read_measurement_wait (Some dev_0) (Some sample_0) 1000 10 (world_of ESP_OK frame_busy) =
     Some (ESP_ERR_TIMEOUT, Some sample_0, world_of ESP_OK frame_busy\<lparr>clock_calls := 3, bus_calls := 2\<rparr>)"
proof -
  let ?w = "world_of ESP_OK frame_busy"
  have c: "clock_script ?w 0 = 0" "clock_calls ?w = 0" "bus_calls ?w = 0"
    by (simp_all add: world_of_def)
  have "\<exists>n. (\<forall>k<n. fst (attempt dev_0 sample_0 (?w\<lparr>clock_calls := Suc (clock_calls ?w)\<rparr>) k) = ESP_ERR_INVALID_STATE \<and>
              elapsed_at (?w\<lparr>clock_calls := Suc (clock_calls ?w)\<rparr>) (clock_script ?w (clock_calls ?w)) k < int (unat (1000 :: u32)) * 1000) \<and>
          (if fst (attempt dev_0 sample_0 (?w\<lparr>clock_calls := Suc (clock_calls ?w)\<rparr>) n) = ESP_ERR_INVALID_STATE
           then int (unat (1000 :: u32)) * 1000 \<le> elapsed_at (?w\<lparr>clock_calls := Suc (clock_calls ?w)\<rparr>) (clock_script ?w (clock_calls ?w)) n \<and>
                (ESP_ERR_TIMEOUT, Some sample_0, ?w\<lparr>clock_calls := 3, bus_calls := 2\<rparr>) = (ESP_ERR_TIMEOUT, Some sample_0,
                     ?w\<lparr>clock_calls := Suc (clock_calls ?w)\<rparr>\<lparr>clock_calls := clock_calls (?w\<lparr>clock_calls := Suc (clock_calls ?w)\<rparr>) + n + 1,
                       bus_calls := bus_calls (?w\<lparr>clock_calls := Suc (clock_calls ?w)\<rparr>) + n + 1\<rparr>)
           else (ESP_ERR_TIMEOUT, Some sample_0, ?w\<lparr>clock_calls := 3, bus_calls := 2\<rparr>) = attempt dev_0 sample_0 (?w\<lparr>clock_calls := Suc (clock_calls ?w)\<rparr>) n)"
    by (rule exI [of _ "Suc 0"]) (simp add: c attempt_busy_world elapsed_busy_world)
  then show ?thesis
    by (rule poll_run [THEN iffD2])
qed

lemma attempt_transport_error:
  assumes "bus_script w (bus_calls w + k) = (ret, data)" and "ret \<noteq> ESP_OK"
  shows "attempt d s w k =
           (ret, Some s, w\<lparr>clock_calls := clock_calls w + k, bus_calls := Suc (bus_calls w + k)\<rparr>)"
  using assms
  by (simp add: attempt_def read_measurement_Some dht20_read_raw_def i2c_master_read_from_device_def Let_def)

text \<open>
  C1 as stated fails where the bus driver's own error code is \<^verbatim>\<open>ESP_ERR_INVALID_STATE\<close> or
  \<^verbatim>\<open>ESP_ERR_TIMEOUT\<close>. In \<open>world_ce\<close> the first bus read fails with
  \<^verbatim>\<open>ESP_ERR_INVALID_STATE\<close>; the call does not return it but reads the bus a second time and
  returns that read's \<^verbatim>\<open>ESP_FAIL\<close>. Where every bus read fails with \<^verbatim>\<open>ESP_ERR_TIMEOUT\<close>, the
  call with a timeout of 1000 ms returns \<^verbatim>\<open>ESP_ERR_TIMEOUT\<close> after the first attempt, having
  read the clock once, at its start.
\<close>

theorem poll_transport_code_counterexample:
  "fst (dht20_read_raw dev_0 (replicate DHT20_DATA_LEN 0) DHT20_DATA_LEN (world_ce\<lparr>clock_calls := 1\<rparr>)) =
     ESP_ERR_INVALID_STATE \<and>
   dht20_read_measurement_wait (Some dev_0) (Some sample_0) 1000 10 world_ce =
     Some (ESP_FAIL, Some sample_0, world_ce\<lparr>clock_calls := 2, bus_calls := 2\<rparr>) \<and>
   dht20_read_measurement_wait (Some dev_0) (Some sample_0) 1000 10 (world_of ESP_ERR_TIMEOUT []) =
     Some (ESP_ERR_TIMEOUT, Some sample_0, world_of ESP_ERR_TIMEOUT []\<lparr>clock_calls := 1, bus_calls := 1\<rparr>)"
proof -
  let ?ws = "world_ce\<lparr>clock_calls := Suc 0\<rparr>"
  have top: "dht20_read_measurement_wait (Some dev_0) (Some sample_0) 1000 10 world_ce =
      dht20_wait_loop (Some dev_0) 0 (ucast (1000 :: u32) * 1000) 10 (Some sample_0) ?ws"
    by (simp add: dht20_read_measurement_wait_def esp_timer_get_time_def world_ce_def)
  have a0: "attempt dev_0 sample_0 ?ws 0 = (ESP_ERR_INVALID_STATE, Some sample_0, world_ce\<lparr>clock_calls := Suc 0, bus_calls := Suc 0\<rparr>)"
    by (subst attempt_transport_error [of _ _ ESP_ERR_INVALID_STATE "[]"])
      (simp_all add: world_ce_def)
  have a1: "attempt dev_0 sample_0 ?ws (Suc 0) = (ESP_FAIL, Some sample_0, world_ce\<lparr>clock_calls := 2, bus_calls := 2\<rparr>)"
    by (subst attempt_transport_error [of _ _ ESP_FAIL "[]"])
      (simp_all add: world_ce_def)
  have e0: "elapsed_at ?ws 0 0 = 0"
    by (simp add: elapsed_at_def world_ce_def)
  have t: "sint (ucast (1000 :: u32) * 1000 :: i64) = 1000000"
    by (simp add: sint_timeout_us)
  have 1: "\<forall>k<Suc 0. fst (attempt dev_0 sample_0 ?ws k) = ESP_ERR_INVALID_STATE \<and>
      elapsed_at ?ws 0 k < sint (ucast (1000 :: u32) * 1000 :: i64)"
    by (simp add: a0 e0 t)
  have 2: "fst (attempt dev_0 sample_0 ?ws (Suc 0)) = ESP_ERR_INVALID_STATE \<longrightarrow>
      sint (ucast (1000 :: u32) * 1000 :: i64) \<le> elapsed_at ?ws 0 (Suc 0)"
    by (simp add: a1)
  have r: "fst (dht20_read_raw dev_0 (replicate DHT20_DATA_LEN 0) DHT20_DATA_LEN ?ws) = ESP_ERR_INVALID_STATE"
    by (simp add: dht20_read_raw_def i2c_master_read_from_device_def world_ce_def)
  have A: "dht20_read_measurement_wait (Some dev_0) (Some sample_0) 1000 10 world_ce =
     Some (ESP_FAIL, Some sample_0, world_ce\<lparr>clock_calls := 2, bus_calls := 2\<rparr>)"
    using wait_loop_returns [OF 1 2, of 10] by (simp add: top a1)
  let ?v = "world_of ESP_ERR_TIMEOUT []"
  let ?vs = "?v\<lparr>clock_calls := Suc 0\<rparr>"
  have top': "dht20_read_measurement_wait (Some dev_0) (Some sample_0) 1000 10 ?v =
      dht20_wait_loop (Some dev_0) 0 (ucast (1000 :: u32) * 1000) 10 (Some sample_0) ?vs"
    by (simp add: dht20_read_measurement_wait_def esp_timer_get_time_def world_of_def)
  have b0: "attempt dev_0 sample_0 ?vs 0 = (ESP_ERR_TIMEOUT, Some sample_0, ?v\<lparr>clock_calls := Suc 0, bus_calls := Suc 0\<rparr>)"
    by (subst attempt_transport_error [of _ _ ESP_ERR_TIMEOUT "[]"])
      (simp_all add: world_of_def)
  have 3: "\<forall>k<0. fst (attempt dev_0 sample_0 ?vs k) = ESP_ERR_INVALID_STATE \<and>
      elapsed_at ?vs 0 k < sint (ucast (1000 :: u32) * 1000 :: i64)"
    by simp
  have 4: "fst (attempt dev_0 sample_0 ?vs 0) = ESP_ERR_INVALID_STATE \<longrightarrow>
      sint (ucast (1000 :: u32) * 1000 :: i64) \<le> elapsed_at ?vs 0 0"
    by (simp add: b0)
  have B: "dht20_read_measurement_wait (Some dev_0) (Some sample_0) 1000 10 ?v =
     Some (ESP_ERR_TIMEOUT, Some sample_0, ?v\<lparr>clock_calls := 1, bus_calls := 1\<rparr>)"
    using wait_loop_returns [OF 3 4, of 10] by (simp add: top' b0)
  from r A B show ?thesis by simp
qed

subsection \<open>Filter reset\<close>

lemma filter_apply_Some:
  "dht20_filter_apply (Some f) (Some i) (Some out) =
     (if \<not> (f32_gt (alpha f) f32_0_0 \<and> f32_le (alpha f) f32_1_0)
      then (ESP_ERR_INVALID_STATE, Some f, Some out)
      else if \<not> initialized f
      then (ESP_OK,
            Some (f\<lparr>filter_temperature_c := temperature_c i, filter_humidity_rh := humidity_rh i,
                   initialized := True\<rparr>),
            Some (i\<lparr>temperature_c := temperature_c i,
                   humidity_rh := dht20_clampf (humidity_rh i) f32_0_0 f32_100_0\<rparr>))
      else (ESP_OK,
            Some (f\<lparr>filter_temperature_c :=
                     f32_add (f32_mul (alpha f) (temperature_c i))
                       (f32_mul (f32_sub f32_1_0 (alpha f)) (filter_temperature_c f)),
                   filter_humidity_rh :=
                     f32_add (f32_mul (alpha f) (humidity_rh i))
                       (f32_mul (f32_sub f32_1_0 (alpha f)) (filter_humidity_rh f))\<rparr>),
            Some (i\<lparr>temperature_c :=
                     f32_add (f32_mul (alpha f) (temperature_c i))
                       (f32_mul (f32_sub f32_1_0 (alpha f)) (filter_temperature_c f)),
                   humidity_rh :=
                     dht20_clampf
                       (f32_add (f32_mul (alpha f) (humidity_rh i))
                         (f32_mul (f32_sub f32_1_0 (alpha f)) (filter_humidity_rh f)))
                       f32_0_0 f32_100_0\<rparr>)))"
  by (simp add: dht20_filter_apply_def Let_def)

text \<open>
  C9. Reset of a non-null filter state clears the initialized flag and nothing else: the
  coefficient and the two smoothed values are what they were. They are inert: the next
  apply returns the same code and the same output whatever the two smoothed values were,
  and, when it succeeds, leaves the same state, the smoothed values overwritten by the
  input's.
\<close>

theorem filter_reset_clears_flag_only:
  "dht20_filter_reset (Some f) = Some (f\<lparr>initialized := False\<rparr>) \<and>
   (\<forall>f'. dht20_filter_reset (Some f) = Some f' \<longrightarrow>
      \<not> initialized f' \<and> alpha f' = alpha f \<and>
      filter_humidity_rh f' = filter_humidity_rh f \<and> filter_temperature_c f' = filter_temperature_c f) \<and>
   fst (dht20_filter_apply (dht20_filter_reset (Some (f\<lparr>filter_humidity_rh := h, filter_temperature_c := t\<rparr>))) input output) =
     fst (dht20_filter_apply (dht20_filter_reset (Some f)) input output) \<and>
   snd (snd (dht20_filter_apply (dht20_filter_reset (Some (f\<lparr>filter_humidity_rh := h, filter_temperature_c := t\<rparr>))) input output)) =
     snd (snd (dht20_filter_apply (dht20_filter_reset (Some f)) input output)) \<and>
   (fst (dht20_filter_apply (dht20_filter_reset (Some f)) input output) = ESP_OK \<longrightarrow>
      dht20_filter_apply (dht20_filter_reset (Some (f\<lparr>filter_humidity_rh := h, filter_temperature_c := t\<rparr>))) input output =
        dht20_filter_apply (dht20_filter_reset (Some f)) input output \<and>
      (\<exists>i. input = Some i \<and>
         fst (snd (dht20_filter_apply (dht20_filter_reset (Some f)) input output)) =
           Some (f\<lparr>filter_temperature_c := temperature_c i, filter_humidity_rh := humidity_rh i,
                  initialized := True\<rparr>)))"
  by (cases "input"; cases "output")
    (auto simp: dht20_filter_reset_def dht20_filter_apply_def filter_apply_Some esp_err_defs)

lemma filter_0_alpha_ok: "f32_gt (alpha filter_0) f32_0_0 \<and> f32_le (alpha filter_0) f32_1_0"
  by (simp add: filter_0_def f32_defs)

theorem filter_reset_clears_flag_only_witness:
  "dht20_filter_reset (Some filter_0) = Some (filter_0\<lparr>initialized := False\<rparr>) \<and>
   alpha (filter_0\<lparr>initialized := False\<rparr>) = 0x3F000000 \<and>
   filter_humidity_rh (filter_0\<lparr>initialized := False\<rparr>) = 0x42200000 \<and>
   filter_temperature_c (filter_0\<lparr>initialized := False\<rparr>) = 0x41A00000 \<and>
   dht20_filter_apply (dht20_filter_reset (Some filter_0)) (Some sample_a) (Some sample_0) =
     (ESP_OK,
      Some (filter_0\<lparr>filter_temperature_c := 0x41F00000, filter_humidity_rh := 0x42700000\<rparr>),
      Some sample_a) \<and>
   dht20_filter_apply (dht20_filter_reset (Some (filter_0\<lparr>filter_humidity_rh := 0, filter_temperature_c := 0\<rparr>)))
       (Some sample_a) (Some sample_0) =
     dht20_filter_apply (dht20_filter_reset (Some filter_0)) (Some sample_a) (Some sample_0)"
proof -
  have r: "dht20_filter_reset (Some filter_0) = Some (filter_0\<lparr>initialized := False\<rparr>)"
    by (simp add: dht20_filter_reset_def)
  have c: "dht20_clampf 0x42700000 f32_0_0 f32_100_0 = 0x42700000"
    by (simp add: dht20_clampf_def f32_defs)
  have a: "dht20_filter_apply (dht20_filter_reset (Some filter_0)) (Some sample_a) (Some sample_0) =
     (ESP_OK,
      Some (filter_0\<lparr>filter_temperature_c := 0x41F00000, filter_humidity_rh := 0x42700000\<rparr>),
      Some sample_a)"
    using filter_0_alpha_ok
    by (simp add: r filter_apply_Some) (simp add: sample_a_def filter_0_def c)
  from filter_reset_clears_flag_only [of filter_0 0 0 "Some sample_a" "Some sample_0"] r a
  show ?thesis
    by (simp add: filter_0_def)
qed

subsection \<open>Float literals and the clamp\<close>

lemma f32_literal_values:
  "f32_valof f32_0_0 = 0" "f32_valof f32_1_0 = 1" "f32_valof f32_50_0 = 50"
  "f32_valof f32_100_0 = 100" "f32_valof f32_200_0 = 200" "f32_valof f32_1048576_0 = 2 ^ 20"
  by (simp_all add: f32_valof_def f32_defs)

lemma f32_example_values:
  "f32_valof 0x42C60000 = 99" "f32_valof 0x40A00000 = 5" "f32_valof 0x40000000 = 2"
  "f32_valof 0xC0A00000 = - 5" "f32_valof 0x42F00000 = 120" "f32_valof 0x3F000000 = 1 / 2"
  "f32_valof 0x42200000 = 40" "f32_valof 0x41A00000 = 20" "f32_valof 0x42700000 = 60"
  "f32_valof 0x41F00000 = 30" "f32_valof 0x42480000 = 50" "f32_valof 0x41C80000 = 25"
  "f32_valof 0xC2480000 = - 50" "f32_valof 0x43160000 = 150"
  by (simp_all add: f32_valof_def f32_defs)

lemma f32_const_not_nan [simp]:
  "\<not> f32_isnan f32_0_0" "\<not> f32_isnan f32_100_0" "\<not> f32_isnan f32_1_0"
  by (simp_all add: f32_defs)

lemma f32_const_key [simp]:
  "f32_key f32_0_0 = 0" "f32_key f32_100_0 = 0x42C80000" "f32_key f32_1_0 = 0x3F800000"
  by (simp_all add: f32_defs)

lemma clampf_cases:
  "dht20_clampf v f32_0_0 f32_100_0 =
     (if f32_isnan v then v
      else if f32_key v < 0 then f32_0_0
      else if 0x42C80000 < f32_key v then f32_100_0
      else v)"
  by (simp add: dht20_clampf_def f32_lt_def f32_gt_def)

lemma clampf_in_range: "f32_in_0_100 (dht20_clampf v f32_0_0 f32_100_0) \<longleftrightarrow> \<not> f32_isnan v"
  by (simp add: clampf_cases f32_in_0_100_def f32_le_def)

lemma clampf_id: "f32_in_0_100 v \<Longrightarrow> dht20_clampf v f32_0_0 f32_100_0 = v"
  by (simp add: clampf_cases f32_in_0_100_def f32_le_def)

subsection \<open>Calibration offset\<close>

text \<open>
  C7. For every sample and every pair of offsets, \<^verbatim>\<open>dht20_sample_apply_offset\<close> replaces the
  temperature by temperature plus offset, unclamped, and the humidity by the clamp to 0 and
  100 of humidity plus offset, and changes nothing else. The clamp of \<open>v\<close> is 0 when
  \<open>v < 0\<close>, 100 when \<open>v > 100\<close> and \<open>v\<close> when \<open>0 \<le> v \<le> 100\<close>. 99 % RH with offset +5 gives exactly
  100, and 2 % RH with offset -5 gives exactly 0.
\<close>

theorem apply_offset_adds_and_clamps:
  "dht20_sample_apply_offset (Some s) t h =
     (ESP_OK, Some (s\<lparr>temperature_c := f32_add (temperature_c s) t,
                      humidity_rh := dht20_clampf (f32_add (humidity_rh s) h) f32_0_0 f32_100_0\<rparr>)) \<and>
   (f32_lt v f32_0_0 \<longrightarrow> dht20_clampf v f32_0_0 f32_100_0 = f32_0_0) \<and>
   (f32_gt v f32_100_0 \<longrightarrow> dht20_clampf v f32_0_0 f32_100_0 = f32_100_0) \<and>
   (f32_le f32_0_0 v \<and> f32_le v f32_100_0 \<longrightarrow> dht20_clampf v f32_0_0 f32_100_0 = v) \<and>
   dht20_sample_apply_offset (Some sample_99) f32_0_0 0x40A00000 =
     (ESP_OK, Some (sample_99\<lparr>humidity_rh := f32_100_0\<rparr>)) \<and>
   dht20_sample_apply_offset (Some sample_2) f32_0_0 0xC0A00000 =
     (ESP_OK, Some (sample_2\<lparr>humidity_rh := f32_0_0\<rparr>))"
proof -
  have 1: "f32_add 0x42C60000 0x40A00000 = 0x42D00000" by (simp add: f32_defs)
  have 2: "f32_add 0x40000000 0xC0A00000 = 0xC0400000" by (simp add: f32_defs)
  have 3: "dht20_clampf 0x42D00000 f32_0_0 f32_100_0 = f32_100_0"
    "dht20_clampf 0xC0400000 f32_0_0 f32_100_0 = f32_0_0"
    by (simp_all add: dht20_clampf_def f32_defs)
  have 4: "f32_add 0x41A00000 f32_0_0 = 0x41A00000" by (simp add: f32_defs)
  show ?thesis
    by (simp add: dht20_sample_apply_offset_def sample_99_def sample_2_def 1 2 3 4)
      (simp add: clampf_cases f32_lt_def f32_gt_def f32_le_def)
qed

theorem apply_offset_adds_and_clamps_witness:
  "f32_lt 0xC0400000 f32_0_0 \<and> dht20_clampf 0xC0400000 f32_0_0 f32_100_0 = f32_0_0 \<and>
   f32_gt 0x42D00000 f32_100_0 \<and> dht20_clampf 0x42D00000 f32_0_0 f32_100_0 = f32_100_0 \<and>
   f32_le f32_0_0 0x42700000 \<and> f32_le 0x42700000 f32_100_0 \<and>
   dht20_clampf 0x42700000 f32_0_0 f32_100_0 = 0x42700000 \<and>
   dht20_sample_apply_offset (Some sample_a) 0x40A00000 0x42700000 =
     (ESP_OK, Some (sample_a\<lparr>temperature_c := 0x420C0000, humidity_rh := f32_100_0\<rparr>))"
proof -
  have c: "f32_lt 0xC0400000 f32_0_0" "f32_gt 0x42D00000 f32_100_0"
    "f32_le f32_0_0 0x42700000" "f32_le 0x42700000 f32_100_0"
    by (simp_all add: f32_defs)
  have a: "f32_add 0x41F00000 0x40A00000 = 0x420C0000" "f32_add 0x42700000 0x42700000 = 0x42F00000"
    by (simp_all add: f32_defs)
  have g: "f32_gt 0x42F00000 f32_100_0" by (simp add: f32_defs)
  from apply_offset_adds_and_clamps [of sample_a "0x40A00000" "0x42700000" "0xC0400000"]
    apply_offset_adds_and_clamps [of sample_a "0x40A00000" "0x42700000" "0x42D00000"]
    apply_offset_adds_and_clamps [of sample_a "0x40A00000" "0x42700000" "0x42700000"]
    apply_offset_adds_and_clamps [of sample_a "0x40A00000" "0x42700000" "0x42F00000"]
    c g
  show ?thesis
    by (simp add: sample_a_def a)
qed

subsection \<open>Smoothing filter\<close>

lemma filter_init_ok:
  "dht20_filter_init (Some g) a = (ESP_OK, Some f) \<Longrightarrow>
   f = g\<lparr>initialized := False, alpha := a, filter_humidity_rh := f32_0_0, filter_temperature_c := f32_0_0\<rparr> \<and>
   f32_isfinite a \<and> f32_gt a f32_0_0 \<and> f32_le a f32_1_0"
  by (auto simp: dht20_filter_init_def split: if_splits)

text \<open>
  C6 as stated fails on the first apply where the input humidity is outside 0 to 100: the
  output humidity is clamped on every apply, the first included. A filter fresh from init
  with \<open>\<alpha> = 0.5\<close>, given 120 % RH, seeds its state with 120 and puts out 100.
\<close>

theorem first_apply_clamps_counterexample:
  "dht20_filter_init (Some filter_0) 0x3F000000 = (ESP_OK, Some filter_new) \<and>
   dht20_filter_apply (Some filter_new) (Some sample_120) (Some sample_0) =
     (ESP_OK,
      Some (filter_new\<lparr>filter_temperature_c := 0x41A00000, filter_humidity_rh := 0x42F00000,
              initialized := True\<rparr>),
      Some (sample_120\<lparr>humidity_rh := f32_100_0\<rparr>)) \<and>
   humidity_rh sample_120 = 0x42F00000 \<and> f32_100_0 \<noteq> 0x42F00000"
proof -
  have a: "f32_isfinite 0x3F000000" "f32_gt 0x3F000000 f32_0_0" "f32_le 0x3F000000 f32_1_0"
    by (simp_all add: f32_defs)
  have c: "dht20_clampf 0x42F00000 f32_0_0 f32_100_0 = f32_100_0"
    by (simp add: dht20_clampf_def f32_defs)
  have i: "dht20_filter_init (Some filter_0) 0x3F000000 = (ESP_OK, Some filter_new)"
    using a by (simp add: dht20_filter_init_def) (simp add: filter_0_def filter_new_def f32_0_0_def)
  have p: "dht20_filter_apply (Some filter_new) (Some sample_120) (Some sample_0) =
     (ESP_OK,
      Some (filter_new\<lparr>filter_temperature_c := 0x41A00000, filter_humidity_rh := 0x42F00000,
              initialized := True\<rparr>),
      Some (sample_120\<lparr>humidity_rh := f32_100_0\<rparr>))"
    using a by (simp add: filter_apply_Some) (simp add: filter_new_def sample_120_def c)
  from i p show ?thesis
    by (simp add: sample_120_def f32_100_0_def)
qed

text \<open>
  C6 (amended). For a filter state whose coefficient is valid (greater than 0, at most 1),
  as init leaves it and reset keeps it: on the first apply after init or reset the two
  smoothed values are set to the input's, with no blending, and the output is the input
  with its humidity clamped to 0 and 100, hence the input itself when its humidity is
  within 0 to 100. On every later apply each smoothed value becomes
  \<open>\<alpha> * input + (1 - \<alpha>) * smoothed\<close>, temperature and humidity independently; the output
  temperature is the smoothed temperature, unclamped, and the output humidity is the
  smoothed humidity clamped to 0 and 100; the other fields of the output are the input's.
\<close>

theorem filter_apply_seeds_then_blends:
  assumes "f32_gt (alpha f) f32_0_0" and "f32_le (alpha f) f32_1_0"
  shows
    "(\<not> initialized f \<longrightarrow>
        dht20_filter_apply (Some f) (Some i) (Some out) =
          (ESP_OK,
           Some (f\<lparr>filter_temperature_c := temperature_c i, filter_humidity_rh := humidity_rh i,
                  initialized := True\<rparr>),
           Some (i\<lparr>humidity_rh := dht20_clampf (humidity_rh i) f32_0_0 f32_100_0\<rparr>)) \<and>
        (f32_in_0_100 (humidity_rh i) \<longrightarrow>
           snd (snd (dht20_filter_apply (Some f) (Some i) (Some out))) = Some i)) \<and>
     (initialized f \<longrightarrow>
        dht20_filter_apply (Some f) (Some i) (Some out) =
          (ESP_OK,
           Some (f\<lparr>filter_temperature_c :=
                    f32_add (f32_mul (alpha f) (temperature_c i))
                      (f32_mul (f32_sub f32_1_0 (alpha f)) (filter_temperature_c f)),
                  filter_humidity_rh :=
                    f32_add (f32_mul (alpha f) (humidity_rh i))
                      (f32_mul (f32_sub f32_1_0 (alpha f)) (filter_humidity_rh f))\<rparr>),
           Some (i\<lparr>temperature_c :=
                    f32_add (f32_mul (alpha f) (temperature_c i))
                      (f32_mul (f32_sub f32_1_0 (alpha f)) (filter_temperature_c f)),
                  humidity_rh :=
                    dht20_clampf
                      (f32_add (f32_mul (alpha f) (humidity_rh i))
                        (f32_mul (f32_sub f32_1_0 (alpha f)) (filter_humidity_rh f)))
                      f32_0_0 f32_100_0\<rparr>))) \<and>
     (\<forall>g a f'. dht20_filter_init (Some g) a = (ESP_OK, Some f') \<longrightarrow>
        \<not> initialized f' \<and> alpha f' = a \<and> f32_gt a f32_0_0 \<and> f32_le a f32_1_0) \<and>
     (\<forall>f'. dht20_filter_reset (Some f) = Some f' \<longrightarrow> \<not> initialized f' \<and> alpha f' = alpha f)"
proof -
  have 1: "\<not> initialized f \<longrightarrow>
        dht20_filter_apply (Some f) (Some i) (Some out) =
          (ESP_OK,
           Some (f\<lparr>filter_temperature_c := temperature_c i, filter_humidity_rh := humidity_rh i,
                  initialized := True\<rparr>),
           Some (i\<lparr>humidity_rh := dht20_clampf (humidity_rh i) f32_0_0 f32_100_0\<rparr>))"
    using assms by (simp add: filter_apply_Some)
  have 2: "\<not> initialized f \<longrightarrow> f32_in_0_100 (humidity_rh i) \<longrightarrow>
           snd (snd (dht20_filter_apply (Some f) (Some i) (Some out))) = Some i"
    using assms by (simp add: filter_apply_Some clampf_id)
  have 3: "\<forall>g a f'. dht20_filter_init (Some g) a = (ESP_OK, Some f') \<longrightarrow>
        \<not> initialized f' \<and> alpha f' = a \<and> f32_gt a f32_0_0 \<and> f32_le a f32_1_0"
    using filter_init_ok by fastforce
  have 4: "\<forall>f'. dht20_filter_reset (Some f) = Some f' \<longrightarrow> \<not> initialized f' \<and> alpha f' = alpha f"
    by (auto simp: dht20_filter_reset_def)
  from 1 2 3 4 assms show ?thesis
    by (simp add: filter_apply_Some)
qed

theorem filter_apply_seeds_then_blends_witness:
  "f32_gt (alpha filter_new) f32_0_0 \<and> f32_le (alpha filter_new) f32_1_0 \<and> \<not> initialized filter_new \<and>
   f32_gt (alpha filter_0) f32_0_0 \<and> f32_le (alpha filter_0) f32_1_0 \<and> initialized filter_0 \<and>
   f32_in_0_100 (humidity_rh sample_a) \<and>
   dht20_filter_init (Some filter_0) 0x3F000000 = (ESP_OK, Some filter_new) \<and>
   dht20_filter_reset (Some filter_0) = Some (filter_0\<lparr>initialized := False\<rparr>) \<and>
   dht20_filter_apply (Some filter_new) (Some sample_a) (Some sample_0) =
     (ESP_OK,
      Some (filter_new\<lparr>filter_temperature_c := 0x41F00000, filter_humidity_rh := 0x42700000,
              initialized := True\<rparr>),
      Some sample_a) \<and>
   dht20_filter_apply (Some filter_0) (Some sample_a) (Some sample_0) =
     (ESP_OK,
      Some (filter_0\<lparr>filter_temperature_c := 0x41C80000, filter_humidity_rh := 0x42480000\<rparr>),
      Some (sample_a\<lparr>temperature_c := 0x41C80000, humidity_rh := 0x42480000\<rparr>))"
proof -
  have a: "f32_isfinite 0x3F000000" "f32_gt 0x3F000000 f32_0_0" "f32_le 0x3F000000 f32_1_0"
    by (simp_all add: f32_defs)
  have an: "f32_gt (alpha filter_new) f32_0_0" "f32_le (alpha filter_new) f32_1_0"
    and a0: "f32_gt (alpha filter_0) f32_0_0" "f32_le (alpha filter_0) f32_1_0"
    using a by (simp_all add: filter_new_def filter_0_def)
  have r: "f32_in_0_100 (humidity_rh sample_a)"
    by (simp add: sample_a_def f32_in_0_100_def f32_defs)
  have i: "dht20_filter_init (Some filter_0) 0x3F000000 = (ESP_OK, Some filter_new)"
    using a by (simp add: dht20_filter_init_def) (simp add: filter_0_def filter_new_def f32_0_0_def)
  have rs: "dht20_filter_reset (Some filter_0) = Some (filter_0\<lparr>initialized := False\<rparr>)"
    by (simp add: dht20_filter_reset_def)
  have h: "f32_sub f32_1_0 0x3F000000 = 0x3F000000"
    "f32_mul 0x3F000000 0x41F00000 = 0x41700000" "f32_mul 0x3F000000 0x41A00000 = 0x41200000"
    "f32_add 0x41700000 0x41200000 = 0x41C80000"
    "f32_mul 0x3F000000 0x42700000 = 0x41F00000" "f32_mul 0x3F000000 0x42200000 = 0x41A00000"
    "f32_add 0x41F00000 0x41A00000 = 0x42480000"
    "dht20_clampf 0x42480000 f32_0_0 f32_100_0 = 0x42480000"
    by (simp_all add: dht20_clampf_def f32_defs)
  have ni: "\<not> initialized filter_new" "initialized filter_0"
    by (simp_all add: filter_new_def filter_0_def)
  have s: "snd (snd (dht20_filter_apply (Some filter_new) (Some sample_a) (Some sample_0))) = Some sample_a"
    using filter_apply_seeds_then_blends [OF an, of sample_a sample_0] r ni(1)
    by blast
  have n: "dht20_filter_apply (Some filter_new) (Some sample_a) (Some sample_0) =
     (ESP_OK,
      Some (filter_new\<lparr>filter_temperature_c := 0x41F00000, filter_humidity_rh := 0x42700000,
              initialized := True\<rparr>),
      Some sample_a)"
    using filter_apply_seeds_then_blends [OF an, of sample_a sample_0] s ni(1)
    by (simp add: prod_eq_iff) (simp add: sample_a_def)
  have b: "dht20_filter_apply (Some filter_0) (Some sample_a) (Some sample_0) =
     (ESP_OK,
      Some (filter_0\<lparr>filter_temperature_c := 0x41C80000, filter_humidity_rh := 0x42480000\<rparr>),
      Some (sample_a\<lparr>temperature_c := 0x41C80000, humidity_rh := 0x42480000\<rparr>))"
    using filter_apply_seeds_then_blends [OF a0, of sample_a sample_0] ni(2)
    by (simp add: filter_0_def sample_a_def h)
  from an a0 r i rs n b show ?thesis
    by (simp add: filter_new_def filter_0_def)
qed

subsection \<open>Unit conversion\<close>

text \<open>
  C5. On a successful decode the stored physical values are the stored raw counts
  converted in single precision: humidity is \<open>raw * 100.0 / 2^20\<close> and temperature is
  \<open>raw * 200.0 / 2^20 - 50.0\<close>. The two conversions map count 0 to exactly 0.0 and -50.0,
  and count \<open>2^20\<close> to exactly 100.0 and 150.0.
\<close>

theorem physical_values_from_raw:
  assumes "length raw = DHT20_DATA_LEN"
    and "dht20_parse_sample raw sample w = (ESP_OK, sample', w')"
  shows "humidity_rh sample' =
           f32_div (f32_mul (f32_of_u32 (humidity_raw sample')) f32_100_0) f32_1048576_0 \<and>
         temperature_c sample' =
           f32_sub (f32_div (f32_mul (f32_of_u32 (temperature_raw sample')) f32_200_0) f32_1048576_0) f32_50_0 \<and>
         f32_valof f32_100_0 = 100 \<and> f32_valof f32_200_0 = 200 \<and> f32_valof f32_50_0 = 50 \<and>
         f32_valof f32_1048576_0 = 2 ^ 20 \<and>
         convert_humidity_rh 0 = f32_0_0 \<and> f32_valof (convert_humidity_rh 0) = 0 \<and>
         convert_temperature_c 0 = 0xC2480000 \<and> f32_valof (convert_temperature_c 0) = - 50 \<and>
         convert_humidity_rh 0x100000 = f32_100_0 \<and> f32_valof (convert_humidity_rh 0x100000) = 100 \<and>
         convert_temperature_c 0x100000 = 0x43160000 \<and> f32_valof (convert_temperature_c 0x100000) = 150"
proof -
  from assms(2) have ok: "fst (dht20_parse_sample raw sample w) = ESP_OK" by simp
  then have b: "\<not> bit (raw ! 0) 7" and c: "dht20_crc8 raw 6 = raw ! 6"
    by (auto simp: parse_cases split: if_splits)
  from assms(2) have 1: "humidity_rh sample' = convert_humidity_rh (humidity_raw sample')"
    and 2: "temperature_c sample' = convert_temperature_c (temperature_raw sample')"
    by (auto simp: parse_ok [OF b c])
  have 3: "convert_humidity_rh 0 = f32_0_0" "convert_humidity_rh 0x100000 = f32_100_0"
    by (simp_all add: convert_humidity_rh_def f32_defs)
  have 4: "convert_temperature_c 0 = 0xC2480000" "convert_temperature_c 0x100000 = 0x43160000"
    by (simp_all add: convert_temperature_c_def f32_defs)
  from 1 2 show ?thesis
    unfolding 3 4
    by (simp add: f32_literal_values f32_example_values)
      (simp add: convert_humidity_rh_def convert_temperature_c_def)
qed

theorem physical_values_from_raw_witness:
  "length frame_ok = DHT20_DATA_LEN \<and>
   fst (dht20_parse_sample frame_ok sample_0 (world_of ESP_OK frame_ok)) = ESP_OK \<and>
   humidity_raw (fst (snd (dht20_parse_sample frame_ok sample_0 (world_of ESP_OK frame_ok)))) = 0x66666 \<and>
   temperature_raw (fst (snd (dht20_parse_sample frame_ok sample_0 (world_of ESP_OK frame_ok)))) = 0x63333 \<and>
   humidity_rh (fst (snd (dht20_parse_sample frame_ok sample_0 (world_of ESP_OK frame_ok)))) = 0x421FFFF6 \<and>
   temperature_c (fst (snd (dht20_parse_sample frame_ok sample_0 (world_of ESP_OK frame_ok)))) = 0x41DBFFEC"
proof -
  let ?r = "dht20_parse_sample frame_ok sample_0 (world_of ESP_OK frame_ok)"
  have l: "length frame_ok = DHT20_DATA_LEN" by (simp add: frame_ok_def DHT20_DATA_LEN_def)
  have ok: "fst ?r = ESP_OK" by (rule frame_ok_decodes)
  then have r: "?r = (ESP_OK, fst (snd ?r), snd (snd ?r))"
    by (simp add: prod_eq_iff)
  have b: "\<not> bit (frame_ok ! 0) 7" and c: "dht20_crc8 frame_ok 6 = frame_ok ! 6"
    using ok by (auto simp: parse_cases split: if_splits)
  have h: "humidity_raw (fst (snd ?r)) = 0x66666" "temperature_raw (fst (snd ?r)) = 0x63333"
    by (simp_all add: parse_ok [OF b c]) (simp_all add: unpack_humidity_raw_def unpack_temperature_raw_def frame_ok_def)
  have v: "f32_div (f32_mul (f32_of_u32 0x66666) f32_100_0) f32_1048576_0 = 0x421FFFF6"
    "f32_sub (f32_div (f32_mul (f32_of_u32 0x63333) f32_200_0) f32_1048576_0) f32_50_0 = 0x41DBFFEC"
    by (simp_all add: f32_defs)
  from physical_values_from_raw [OF l r] l ok h v show ?thesis
    by simp
qed

subsection \<open>Floats as numbers\<close>

lemma f32_expo_nat: "f32_expo x = unat x div 2 ^ 23 mod 2 ^ 8"
proof -
  have "drop_bit 23 x AND 0xFF = take_bit 8 (drop_bit 23 x)"
    by (simp add: take_bit_eq_mask mask_eq_exp_minus_1)
  then show ?thesis
    by (simp add: f32_expo_def take_bit_eq_mod drop_bit_eq_div unat_mod_distrib unat_div_distrib)
qed

lemma f32_frac_nat: "f32_frac x = unat x mod 2 ^ 23"
proof -
  have "x AND 0x7FFFFF = take_bit 23 x"
    by (simp add: take_bit_eq_mask mask_eq_exp_minus_1)
  then show ?thesis
    by (simp add: f32_frac_def take_bit_eq_mod unat_mod_distrib)
qed

lemma f32_magnitude_nat: "unat (x AND 0x7FFFFFFF) = unat x mod 2 ^ 31" for x :: float32
proof -
  have "x AND 0x7FFFFFFF = take_bit 31 x"
    by (simp add: take_bit_eq_mask mask_eq_exp_minus_1)
  then show ?thesis
    by (simp add: take_bit_eq_mod unat_mod_distrib)
qed

lemma unat_f32_lt: "unat (x :: float32) < 2 ^ 32"
  using unsigned_less [of x] by simp

lemma f32_sign_nat: "f32_sign x \<longleftrightarrow> 2 ^ 31 \<le> unat x"
proof -
  have "bit x 31 \<longleftrightarrow> bit (unat x) 31"
    by (simp add: bit_unsigned_iff)
  then have "f32_sign x \<longleftrightarrow> odd (unat x div 2 ^ 31)"
    by (simp add: f32_sign_def bit_iff_odd)
  moreover have "unat x div 2 ^ 31 < 2"
    using unat_f32_lt [of x] by (simp add: less_mult_imp_div_less)
  ultimately show ?thesis
    by (cases "unat x div 2 ^ 31 = 0") (auto simp: div_eq_0_iff not_less)
qed


lemma unat_f32_bits:
  assumes "v < 2 ^ 31"
  shows "unat (f32_bits s v) = (if s then 2 ^ 31 else 0) + v"
proof -
  have v: "unat (word_of_nat v :: float32) = v"
    using assms by (simp add: unat_of_nat)
  have "unat (0x80000000 OR word_of_nat v :: float32) = push_bit 31 1 OR v"
    by (simp add: unsigned_or_eq v)
  also have "\<dots> = 1 * 2 ^ 31 + v"
    using assms by (rule or_eq_add_shifted)
  finally show ?thesis
    by (simp add: f32_bits_def f32_zero_def v)
qed

lemma f32_bits_fields:
  assumes "v < 255 * 2 ^ 23"
  shows "f32_sign (f32_bits s v) = s"
    and "f32_expo (f32_bits s v) = v div 2 ^ 23"
    and "f32_frac (f32_bits s v) = v mod 2 ^ 23"
    and "f32_key (f32_bits s v) = (if s then - int v else int v)"
proof -
  from assms have v: "v < 2 ^ 31" by simp
  note u = unat_f32_bits [OF v, of s]
  show 1: "f32_sign (f32_bits s v) = s"
    using v by (simp add: f32_sign_nat u)
  have "v div 2 ^ 23 < 255" using assms by (simp add: less_mult_imp_div_less)
  moreover have "(2 ^ 31 + v) div 2 ^ 23 = 256 + v div 2 ^ 23"
    by (simp add: div_add1_eq)
  ultimately show "f32_expo (f32_bits s v) = v div 2 ^ 23"
    by (simp add: f32_expo_nat u)
  have "(2 ^ 31 + v) mod 2 ^ 23 = (256 * 2 ^ 23 + v) mod (2 ^ 23 :: nat)"
    by simp
  also have "\<dots> = v mod 2 ^ 23"
    by (rule mod_mult_self3)
  finally have "(2 ^ 31 + v) mod 2 ^ 23 = v mod (2 ^ 23 :: nat)" .
  then show "f32_frac (f32_bits s v) = v mod 2 ^ 23"
    by (simp add: f32_frac_nat u)
  have "(2 ^ 31 + v) mod 2 ^ 31 = v"
    using v by simp
  then show "f32_key (f32_bits s v) = (if s then - int v else int v)"
    using v 1 by (cases s) (simp_all add: f32_key_def f32_magnitude_nat unat_f32_bits [OF v])
qed

lemma f32_bits_finite:
  assumes "v < 255 * 2 ^ 23"
  shows "f32_isfinite (f32_bits s v)"
    and "\<not> f32_isnan (f32_bits s v)"
    and "\<not> f32_isinf (f32_bits s v)"
proof -
  have "v div 2 ^ 23 < 255" using assms by (simp add: less_mult_imp_div_less)
  then show "f32_isfinite (f32_bits s v)"
    and "\<not> f32_isnan (f32_bits s v)"
    and "\<not> f32_isinf (f32_bits s v)"
    by (simp_all add: f32_isfinite_def f32_isnan_def f32_isinf_def f32_bits_fields(2) [OF assms])
qed

subsection \<open>Binary length\<close>

lemma bitlen_pos: "0 < n \<Longrightarrow> bitlen n = Suc (bitlen (n div 2))"
  by (subst bitlen.simps) simp

lemma bitlen_zero [simp]: "bitlen 0 = 0"
  by (subst bitlen.simps) simp

lemma bitlen_bounds: "0 < n \<Longrightarrow> 2 ^ (bitlen n - 1) \<le> n \<and> n < 2 ^ bitlen n"
proof (induction n rule: bitlen.induct)
  case (1 n)
  show ?case
  proof (cases "n div 2 = 0")
    case True
    with 1(2) have "n = 1" by (simp add: div_eq_0_iff) 
    then show ?thesis by (simp add: bitlen_pos)
  next
    case False
    with 1 have ih: "2 ^ (bitlen (n div 2) - 1) \<le> n div 2" "n div 2 < 2 ^ bitlen (n div 2)"
      by simp_all
    from False have p: "0 < bitlen (n div 2)"
      by (simp add: bitlen_pos)
    have "(2::nat) ^ bitlen (n div 2) = 2 * 2 ^ (bitlen (n div 2) - 1)"
      using p by (cases "bitlen (n div 2)") simp_all
    moreover have "bitlen n = Suc (bitlen (n div 2))"
      using 1(2) by (rule bitlen_pos)
    ultimately show ?thesis
      using ih by simp linarith
  qed
qed

lemma bitlen_le: "n < 2 ^ k \<Longrightarrow> bitlen n \<le> k"
proof (cases "n = 0")
  case False
  assume "n < 2 ^ k"
  moreover from False bitlen_bounds [of n] have "2 ^ (bitlen n - 1) \<le> n" by simp
  ultimately have "(2::nat) ^ (bitlen n - 1) < 2 ^ k" by (rule le_less_trans [rotated])
  then have "bitlen n - 1 < k" by (simp add: power_strict_increasing_iff)
  then show ?thesis by simp
qed simp

lemma bitlen_gt: "2 ^ k \<le> n \<Longrightarrow> k < bitlen n"
proof -
  assume a: "2 ^ k \<le> n"
  have "0 < (2::nat) ^ k" by simp
  from this a have n: "0 < n" by (rule less_le_trans)
  from bitlen_bounds [OF n] have "n < 2 ^ bitlen n" by simp
  with a have "(2::nat) ^ k < 2 ^ bitlen n" by (rule le_less_trans)
  then show ?thesis by (simp add: power_strict_increasing_iff)
qed

lemma bitlen_eq: "2 ^ k \<le> n \<Longrightarrow> n < 2 ^ Suc k \<Longrightarrow> bitlen n = Suc k"
  using bitlen_le [of n "Suc k"] bitlen_gt [of k n] by simp

lemma bitlen_scale: "0 < n \<Longrightarrow> bitlen (n * 2 ^ k) = bitlen n + k"
proof -
  assume n: "0 < n"
  then obtain j where j: "bitlen n = Suc j" by (auto simp: bitlen_pos)
  with bitlen_bounds [OF n] have "2 ^ j \<le> n" "n < 2 ^ Suc j" by simp_all
  then have "2 ^ (j + k) \<le> n * 2 ^ k" "n * 2 ^ k < 2 ^ Suc (j + k)"
    by (simp_all add: power_add)
  then have "bitlen (n * 2 ^ k) = Suc (j + k)" by (rule bitlen_eq)
  with j show ?thesis by simp
qed

subsection \<open>Rounding\<close>

lemma f32_zero_inf_facts [simp]:
  "\<not> f32_isnan (f32_zero s)" "\<not> f32_isnan (f32_inf s)"
  "f32_isfinite (f32_zero s)" "\<not> f32_isinf (f32_zero s)" "f32_isinf (f32_inf s)"
  "f32_sign (f32_zero s) = s" "f32_sign (f32_inf s) = s"
  "f32_mant (f32_zero s) = 0" "f32_key (f32_zero s) = 0"
  by (cases s; simp add: f32_defs)+

lemma f32_round_at_cases:
  "\<exists>v. f32_round_at s e' m e =
     (if 255 * 2 ^ 23 \<le> v then f32_inf s else f32_bits s v)"
  unfolding f32_round_at_def Let_def by (rule exI, rule refl)

lemma f32_round_at_not_nan: "\<not> f32_isnan (f32_round_at s e' m e)"
proof -
  obtain v where "f32_round_at s e' m e =
     (if 255 * 2 ^ 23 \<le> v then f32_inf s else f32_bits s v)"
    using f32_round_at_cases by blast
  then show ?thesis
    by (cases "255 * 2 ^ 23 \<le> v") (simp_all add: f32_bits_finite not_le)
qed

lemma f32_round_not_nan: "\<not> f32_isnan (f32_round s m e)"
  by (simp add: f32_round_def f32_round_at_not_nan)

lemma f32_round_at_exact:
  "f32_round_at s e m e =
     (if 255 * 2 ^ 23 \<le> nat (e + 149) * 2 ^ 23 + m then f32_inf s
      else f32_bits s (nat (e + 149) * 2 ^ 23 + m))"
  by (simp add: f32_round_at_def)

lemma f32_round_at_scale:
  assumes "0 < m"
  shows "f32_round_at s e' (m * 2 ^ k) e = f32_round_at s e' m (e + int k)"
proof -
  consider (a) "e' \<le> e" | (b) "e < e'" "e' \<le> e + int k" | (c) "e + int k < e'"
    by linarith
  then show ?thesis
  proof cases
    case a
    then have "nat (e + int k - e') = k + nat (e - e')" by simp
    with a show ?thesis
      by (simp add: f32_round_at_def power_add ac_simps)
  next
    case b
    define d where "d = nat (e' - e)"
    from b have d: "0 < d" "d \<le> k" "nat (e' - e) = d" "nat (e + int k - e') = k - d"
      by (simp_all add: d_def)
    have p: "(2::nat) ^ k = 2 ^ (k - d) * 2 ^ d"
      using d(2) by (simp add: power_add [symmetric])
    have q: "m * 2 ^ k div 2 ^ d = m * 2 ^ (k - d)"
      by (simp add: p mult.assoc [symmetric])
    have r: "m * 2 ^ k mod 2 ^ d = 0"
      by (simp add: p mult.assoc [symmetric])
    have h: "(0::nat) < 2 ^ (d - 1)" by simp
    from b show ?thesis
      using h by (simp add: f32_round_at_def d q r Let_def)
  next
    case c
    define d where "d = nat (e' - e - int k)"
    from c have d: "0 < d" "nat (e' - e) = d + k" "nat (e' - (e + int k)) = d"
      by (simp_all add: d_def)
    have q: "m * 2 ^ k div 2 ^ (d + k) = m div 2 ^ d"
      by (simp add: power_add)
    have r: "m * 2 ^ k mod 2 ^ (d + k) = m mod 2 ^ d * 2 ^ k"
      by (simp add: power_add mult_mod_right [symmetric] ac_simps)
    have h: "(2::nat) ^ (d + k - Suc 0) = 2 ^ (d - Suc 0) * 2 ^ k"
      using d(1) by (simp add: power_add [symmetric])
    from c have c': "\<not> e' \<le> e" "\<not> e' \<le> e + int k" by simp_all
    show ?thesis
      by (simp add: f32_round_at_def c' d q r h Let_def)
  qed
qed


lemma f32_round_at_max:
  "0 < m \<Longrightarrow> - 149 \<le> e + int (bitlen m) - 24 \<Longrightarrow>
   f32_round s m e = f32_round_at s (e + int (bitlen m) - 24) m e"
  by (simp add: f32_round_def max_absorb1)

lemma f32_round_at_exact_bits:
  "v = nat (e + 149) * 2 ^ 23 + m \<Longrightarrow> v < 255 * 2 ^ 23 \<Longrightarrow> f32_round_at s e m e = f32_bits s v"
  by (simp add: f32_round_at_exact)

text \<open>A significand of exactly 24 bits, scaled up or down, is not rounded.\<close>

lemma f32_round_normal_up:
  assumes "2 ^ 23 \<le> q" and "q < 2 ^ 24" and "- 149 \<le> e + int k"
    and "nat (e + int k + 149) * 2 ^ 23 + q < 255 * 2 ^ 23"
  shows "f32_round s (q * 2 ^ k) e = f32_bits s (nat (e + int k + 149) * 2 ^ 23 + q)"
proof -
  from assms(1) have q: "0 < q" by (simp add: less_le_trans [of 0 "2 ^ 23"])
  have b: "bitlen q = 24" using assms(1,2) bitlen_eq [of 23 q] by simp
  then have bl: "bitlen (q * 2 ^ k) = 24 + k" using q by (simp add: bitlen_scale)
  have "f32_round s (q * 2 ^ k) e = f32_round_at s (e + int k) (q * 2 ^ k) e"
    using q assms(3) f32_round_at_max [of "q * 2 ^ k" e s] by (simp add: bl)
  also have "\<dots> = f32_round_at s (e + int k) q (e + int k)"
    using q by (rule f32_round_at_scale)
  also have "\<dots> = f32_bits s (nat (e + int k + 149) * 2 ^ 23 + q)"
    using refl assms(4) by (rule f32_round_at_exact_bits)
  finally show ?thesis .
qed

lemma f32_round_normal_down:
  assumes "0 < m" and "bitlen m = L" and "L \<le> 24" and "- 149 \<le> e + int L - 24"
    and "nat (e + int L + 125) * 2 ^ 23 + m * 2 ^ (24 - L) < 255 * 2 ^ 23"
  shows "f32_round s m e = f32_bits s (nat (e + int L + 125) * 2 ^ 23 + m * 2 ^ (24 - L))"
proof -
  have e: "e + int L - 24 + int (24 - L) = e"
    using assms(3) by simp
  have "f32_round s m e = f32_round_at s (e + int L - 24) m e"
    using assms(1,2,4) f32_round_at_max [of m e s] by simp
  also have "\<dots> = f32_round_at s (e + int L - 24) (m * 2 ^ (24 - L)) (e + int L - 24)"
    using f32_round_at_scale [OF assms(1), of s "e + int L - 24" "24 - L" "e + int L - 24"]
    by (simp only: e)
  also have "\<dots> = f32_bits s (nat (e + int L + 125) * 2 ^ 23 + m * 2 ^ (24 - L))"
  proof (rule f32_round_at_exact_bits [OF _ assms(5)])
    have "e + int L - 24 + 149 = e + int L + 125" by simp
    then show "nat (e + int L + 125) * 2 ^ 23 + m * 2 ^ (24 - L) =
        nat (e + int L - 24 + 149) * 2 ^ 23 + m * 2 ^ (24 - L)"
      by (simp only:)
  qed
  finally show ?thesis .
qed

text \<open>The fields of a float given by its bits, for a normal number.\<close>

lemma f32_bits_normal:
  assumes "2 ^ 23 \<le> v" and "v < 255 * 2 ^ 23"
  shows "f32_mant (f32_bits s v) = 2 ^ 23 + v mod 2 ^ 23"
    and "f32_exp2 (f32_bits s v) = int (v div 2 ^ 23) - 150"
proof -
  from assms(1) have "0 < v div 2 ^ 23"
    by (simp add: div_greater_zero_iff)
  then show "f32_mant (f32_bits s v) = 2 ^ 23 + v mod 2 ^ 23"
    and "f32_exp2 (f32_bits s v) = int (v div 2 ^ 23) - 150"
    by (simp_all add: f32_mant_def f32_exp2_def f32_bits_fields [OF assms(2)])
qed


lemma f32_bits_normal_eq:
  assumes "2 ^ 23 \<le> q" and "q < 2 ^ 24" and "E * 2 ^ 23 + q < 255 * 2 ^ 23"
  shows "f32_mant (f32_bits s (E * 2 ^ 23 + q)) = q"
    and "f32_exp2 (f32_bits s (E * 2 ^ 23 + q)) = int E - 149"
proof -
  from assms(1) have v: "2 ^ 23 \<le> E * 2 ^ 23 + q" by simp
  have d: "q div 2 ^ 23 = 1"
    using assms(1,2) by (simp add: div_nat_eqI)
  have m: "q mod 2 ^ 23 = q - 2 ^ 23"
    using d mod_div_mult_eq [of q "2 ^ 23"] by simp
  have m': "(E * 2 ^ 23 + q) mod 2 ^ 23 = q - 2 ^ 23"
    using m by simp
  have d': "(E * 2 ^ 23 + q) div 2 ^ 23 = E + 1"
    using d by simp
  show "f32_mant (f32_bits s (E * 2 ^ 23 + q)) = q"
    unfolding f32_bits_normal(1) [OF v assms(3)] m' using assms(1) by simp
  show "f32_exp2 (f32_bits s (E * 2 ^ 23 + q)) = int E - 149"
    unfolding f32_bits_normal(2) [OF v assms(3)] d' by simp
qed

lemma f32_round_scale:
  "0 < m \<Longrightarrow> f32_round s (m * 2 ^ k) e = f32_round s m (e + int k)"
  by (simp add: f32_round_def bitlen_scale f32_round_at_scale algebra_simps)

lemma normalised:
  assumes "0 < n" and "bitlen n = L" and "L \<le> 24"
  shows "2 ^ 23 \<le> n * 2 ^ (24 - L)" and "n * 2 ^ (24 - L) < 2 ^ 24"
proof -
  from assms(1,2) obtain j where j: "L = Suc j" by (auto simp: bitlen_pos)
  from bitlen_bounds [OF assms(1)] assms(2) j have n: "2 ^ j \<le> n" "n < 2 ^ Suc j" by simp_all
  have "(2::nat) ^ 23 = 2 ^ j * 2 ^ (24 - L)"
    using assms(3) j by (simp add: power_add [symmetric])
  also have "\<dots> \<le> n * 2 ^ (24 - L)"
    using n(1) by simp
  finally show "2 ^ 23 \<le> n * 2 ^ (24 - L)" .
  have "n * 2 ^ (24 - L) < 2 ^ Suc j * 2 ^ (24 - L)"
    using n(2) by simp
  also have "\<dots> = 2 ^ 24"
    using assms(3) j by (simp add: power_add [symmetric])
  finally show "n * 2 ^ (24 - L) < 2 ^ 24" .
qed

subsection \<open>The humidity conversion stays below 100\<close>

lemma f32_of_u32_exact:
  assumes "0 < unat r" and "unat r < 2 ^ 24"
  shows "f32_of_u32 r = f32_bits False ((bitlen (unat r) + 125) * 2 ^ 23 + unat r * 2 ^ (24 - bitlen (unat r)))"
    and "f32_mant (f32_of_u32 r) = unat r * 2 ^ (24 - bitlen (unat r))"
    and "f32_exp2 (f32_of_u32 r) = int (bitlen (unat r)) - 24"
    and "\<not> f32_isnan (f32_of_u32 r)" and "\<not> f32_isinf (f32_of_u32 r)" and "\<not> f32_sign (f32_of_u32 r)"
proof -
  define n where "n = unat r"
  define L where "L = bitlen n"
  have L: "L \<le> 24" using assms(2) by (simp add: L_def n_def bitlen_le)
  note q = normalised [OF assms(1) [folded n_def] L_def [symmetric] L]
  have v: "(L + 125) * 2 ^ 23 + n * 2 ^ (24 - L) < 255 * 2 ^ 23"
    using L q(2) by simp
  have "f32_round False n 0 = f32_bits False (nat (0 + int L + 125) * 2 ^ 23 + n * 2 ^ (24 - L))"
    using assms(1) L v by (intro f32_round_normal_down) (simp_all add: n_def L_def nat_add_distrib)
  then show x: "f32_of_u32 r = f32_bits False ((bitlen (unat r) + 125) * 2 ^ 23 + unat r * 2 ^ (24 - bitlen (unat r)))"
    by (simp add: f32_of_u32_def n_def L_def nat_add_distrib)
  show "f32_mant (f32_of_u32 r) = unat r * 2 ^ (24 - bitlen (unat r))"
    unfolding x using f32_bits_normal_eq(1) [OF q v] by (simp add: n_def L_def)
  show "f32_exp2 (f32_of_u32 r) = int (bitlen (unat r)) - 24"
    unfolding x using f32_bits_normal_eq(2) [OF q v, of False] by (simp add: n_def L_def)
  show "\<not> f32_isnan (f32_of_u32 r)" "\<not> f32_isinf (f32_of_u32 r)" "\<not> f32_sign (f32_of_u32 r)"
    unfolding x using f32_bits_finite [OF v, of False] f32_bits_fields(1) [OF v, of False]
    by (simp_all add: n_def L_def)
qed

lemma f32_100_fields:
  "f32_mant f32_100_0 = 25 * 2 ^ 19" "f32_exp2 f32_100_0 = - 17"
  "\<not> f32_isinf f32_100_0" "\<not> f32_sign f32_100_0"
  by (simp_all add: f32_defs)

lemma f32_1048576_fields:
  "f32_mant f32_1048576_0 = 2 ^ 23" "f32_exp2 f32_1048576_0 = - 3"
  "\<not> f32_isnan f32_1048576_0" "\<not> f32_isinf f32_1048576_0" "\<not> f32_sign f32_1048576_0"
  by (simp_all add: f32_defs)

lemma f32_mul_finite:
  "\<not> f32_isnan a \<Longrightarrow> \<not> f32_isnan b \<Longrightarrow> \<not> f32_isinf a \<Longrightarrow> \<not> f32_isinf b \<Longrightarrow>
   f32_mul a b = f32_round (f32_sign a \<noteq> f32_sign b) (f32_mant a * f32_mant b) (f32_exp2 a + f32_exp2 b)"
  by (simp add: f32_mul_def)

lemma mul_100_rounds:
  assumes "0 < unat r" and "unat r < 2 ^ 24"
  shows "f32_mul (f32_of_u32 r) f32_100_0 = f32_round False (25 * unat r) 2"
proof -
  define n where "n = unat r"
  define L where "L = bitlen n"
  have L: "L \<le> 24" using assms(2) by (simp add: L_def n_def bitlen_le)
  note x = f32_of_u32_exact [OF assms, folded n_def, folded L_def]
  have "f32_mul (f32_of_u32 r) f32_100_0 =
      f32_round False (n * 2 ^ (24 - L) * (25 * 2 ^ 19)) (int L - 24 + - 17)"
    using x(4-6) by (simp only: f32_mul_finite f32_const_not_nan f32_100_fields x(2,3) simp_thms)
  also have "n * 2 ^ (24 - L) * (25 * 2 ^ 19) = (25 * n) * 2 ^ (43 - L)"
  proof -
    have "43 - L = 19 + (24 - L)" using L by simp
    then have "(2::nat) ^ (43 - L) = 2 ^ 19 * 2 ^ (24 - L)" by (simp only: power_add)
    then show ?thesis by simp
  qed
  also have "f32_round False ((25 * n) * 2 ^ (43 - L)) (int L - 24 + - 17) =
      f32_round False (25 * n) (int L - 24 + - 17 + int (43 - L))"
    using assms(1) by (intro f32_round_scale) (simp add: n_def)
  also have "int L - 24 + - 17 + int (43 - L) = 2"
    using L by simp
  finally show ?thesis by (simp only: n_def)
qed


lemma round_25n_bounds:
  assumes "0 < n" and "n < 2 ^ 20"
  shows "\<exists>v. f32_round False (25 * n) 2 = f32_bits False v \<and> 133 * 2 ^ 23 \<le> v \<and> v < 153 * 2 ^ 23 + 4718592"
proof -
  define m where "m = 25 * n"
  define L where "L = bitlen m"
  have m: "0 < m" "16 \<le> m" "m < 2 ^ 25" "m \<le> 26214375"
    using assms by (simp_all add: m_def)
  have L5: "5 \<le> L"
    using bitlen_gt [of 4 m] m(2) by (simp add: L_def)
  have L25: "L \<le> 25"
    using m(3) by (simp add: L_def bitlen_le)
  show ?thesis
  proof (cases "L \<le> 24")
    case True
    note q = normalised [OF m(1) L_def [symmetric] True]
    have v: "nat (2 + int L + 125) * 2 ^ 23 + m * 2 ^ (24 - L) < 255 * 2 ^ 23"
      using True q(2) by (simp add: nat_add_distrib)
    have "f32_round False m 2 = f32_bits False (nat (2 + int L + 125) * 2 ^ 23 + m * 2 ^ (24 - L))"
      using m(1) L_def [symmetric] True _ v by (rule f32_round_normal_down) simp
    moreover have "133 * 2 ^ 23 \<le> nat (2 + int L + 125) * 2 ^ 23 + m * 2 ^ (24 - L)"
      using L5 q(1) by (simp add: nat_add_distrib)
    moreover have "nat (2 + int L + 125) * 2 ^ 23 + m * 2 ^ (24 - L) < 153 * 2 ^ 23 + 4718592"
      using True q(2) by (simp add: nat_add_distrib)
    ultimately show ?thesis
      unfolding m_def by blast
  next
    case False
    with L25 have L: "L = 25" by simp
    then have lo: "2 ^ 24 \<le> m"
      using bitlen_bounds [OF m(1)] by (simp add: L_def)
    define q where "q = m div 2"
    define q' where "q' = (if 1 < m mod 2 \<or> (m mod 2 = 1 \<and> odd q) then q + 1 else q)"
    have q: "2 ^ 23 \<le> q" "q \<le> 13107187"
      using lo m(4) by (simp_all add: q_def)
    have q': "2 ^ 23 \<le> q'" "q' \<le> 13107188"
      using q by (simp_all add: q'_def)
    have "f32_round False m 2 = f32_round_at False 3 m 2"
      using m(1) L f32_round_at_max [of m 2 False] by (simp add: L_def)
    also have "\<dots> = (if 255 * 2 ^ 23 \<le> 152 * 2 ^ 23 + q' then f32_inf False
        else f32_bits False (152 * 2 ^ 23 + q'))"
      by (simp add: f32_round_at_def q'_def q_def Let_def)
    also have "\<dots> = f32_bits False (152 * 2 ^ 23 + q')"
      using q'(2) by simp
    finally have "f32_round False m 2 = f32_bits False (152 * 2 ^ 23 + q')" .
    moreover have "133 * 2 ^ 23 \<le> 152 * 2 ^ 23 + q'" by simp
    moreover have "152 * 2 ^ 23 + q' < 153 * 2 ^ 23 + 4718592"
      using q'(2) by simp
    ultimately show ?thesis
      unfolding m_def by blast
  qed
qed

lemma div_2p20_shifts_exponent:
  assumes "21 * 2 ^ 23 \<le> v" and "v < 255 * 2 ^ 23"
  shows "f32_div (f32_bits False v) f32_1048576_0 = f32_bits False (v - 20 * 2 ^ 23)"
proof -
  define E where "E = v div 2 ^ 23"
  define q where "q = 2 ^ 23 + v mod 2 ^ 23"
  have v: "2 ^ 23 \<le> v" using assms(1) by simp
  have E: "21 \<le> E" "E < 255"
    using assms by (simp_all add: E_def less_mult_imp_div_less le_div_geq)
  have q: "2 ^ 23 \<le> q" "q < 2 ^ 24" by (simp_all add: q_def)
  have veq: "v = E * 2 ^ 23 + v mod 2 ^ 23"
    by (simp add: E_def)
  note y = f32_bits_normal [OF v assms(2), of False, folded q_def E_def]
    f32_bits_finite [OF assms(2), of False] f32_bits_fields(1) [OF assms(2), of False]
  have "q * 2 ^ 50 div 2 ^ 23 = q * 2 ^ 27" "q * 2 ^ 50 mod 2 ^ 23 = 0"
    by simp_all
  then have "f32_div (f32_bits False v) f32_1048576_0 =
      f32_round False (2 * (q * 2 ^ 27) + 0) (int E - 150 - - 3 - 51)"
    using y(4,5,6) by (simp only: f32_div_def Let_def y(1,2) f32_1048576_fields simp_thms if_False if_True)
      (simp del: f32_bits_def)
  also have "2 * (q * 2 ^ 27) + 0 = q * 2 ^ 28" by simp
  also have "f32_round False (q * 2 ^ 28) (int E - 150 - - 3 - 51) =
      f32_bits False (nat (int E - 150 - - 3 - 51 + int 28 + 149) * 2 ^ 23 + q)"
    using q
  proof (rule f32_round_normal_up)
    show "- 149 \<le> int E - 150 - - 3 - 51 + int 28" using E(1) by simp
    have "nat (int E - 150 - - 3 - 51 + int 28 + 149) = E - 21" by simp
    then show "nat (int E - 150 - - 3 - 51 + int 28 + 149) * 2 ^ 23 + q < 255 * 2 ^ 23"
      using E q(2) by simp
  qed
  also have "nat (int E - 150 - - 3 - 51 + int 28 + 149) * 2 ^ 23 + q = v - 20 * 2 ^ 23"
  proof -
    have "nat (int E - 150 - - 3 - 51 + int 28 + 149) = E - 21" by simp
    moreover have "(E - 21) * 2 ^ 23 + q = E * 2 ^ 23 + v mod 2 ^ 23 - 20 * 2 ^ 23"
      using E(1) by (simp add: q_def algebra_simps)
    ultimately show ?thesis using veq by simp
  qed
  finally show ?thesis .
qed


lemma convert_humidity_bits:
  assumes "0 < unat r" and "unat r < 2 ^ 20"
  shows "\<exists>v. convert_humidity_rh r = f32_bits False v \<and> 113 * 2 ^ 23 \<le> v \<and> v < 0x42C80000"
proof -
  from assms(2) have r24: "unat r < 2 ^ 24" by simp
  obtain v where v: "f32_round False (25 * unat r) 2 = f32_bits False v"
    "133 * 2 ^ 23 \<le> v" "v < 153 * 2 ^ 23 + 4718592"
    using round_25n_bounds [OF assms] by blast
  have "convert_humidity_rh r = f32_div (f32_bits False v) f32_1048576_0"
    by (simp only: convert_humidity_rh_def mul_100_rounds [OF assms(1) r24] v(1))
  also have "\<dots> = f32_bits False (v - 20 * 2 ^ 23)"
    using v(2,3) by (intro div_2p20_shifts_exponent) simp_all
  finally have "convert_humidity_rh r = f32_bits False (v - 20 * 2 ^ 23)" .
  moreover have "113 * 2 ^ 23 \<le> v - 20 * 2 ^ 23" "v - 20 * 2 ^ 23 < 0x42C80000"
    using v(2,3) by simp_all
  ultimately show ?thesis by blast
qed

lemma convert_humidity_range:
  assumes "unat r < 2 ^ 20"
  shows "f32_le f32_0_0 (convert_humidity_rh r) \<and> f32_lt (convert_humidity_rh r) f32_100_0"
proof (cases "unat r = 0")
  case True
  then have "r = 0" by (simp add: unat_eq_0)
  moreover have "convert_humidity_rh 0 = f32_0_0"
    by (simp add: convert_humidity_rh_def f32_defs)
  ultimately show ?thesis
    by (simp add: f32_le_def f32_lt_def)
next
  case False
  then obtain v where v: "convert_humidity_rh r = f32_bits False v" "v < 0x42C80000"
    using convert_humidity_bits [OF _ assms] by auto
  from v(2) have b: "v < 255 * 2 ^ 23" by simp
  show ?thesis
    using v(2) f32_bits_finite(2) [OF b, of False] f32_bits_fields(4) [OF b, of False]
    by (simp add: v(1) f32_le_def f32_lt_def)
qed

subsection \<open>When an operation gives NaN\<close>

lemma f32_qnan_isnan [simp]: "f32_isnan f32_qnan"
  by (simp add: f32_defs)

lemma f32_isnan_not_finite: "f32_isnan x \<Longrightarrow> \<not> f32_isfinite x"
  and f32_isinf_not_finite: "f32_isinf x \<Longrightarrow> \<not> f32_isfinite x"
  and f32_finite_iff: "f32_isfinite x \<longleftrightarrow> \<not> f32_isnan x \<and> \<not> f32_isinf x"
  by (auto simp: f32_isnan_def f32_isinf_def f32_isfinite_def)

lemma f32_add_isnan:
  "f32_isnan (f32_add a b) \<longleftrightarrow>
     f32_isnan a \<or> f32_isnan b \<or> (f32_isinf a \<and> f32_isinf b \<and> f32_sign a \<noteq> f32_sign b)"
  by (auto simp: f32_add_def Let_def f32_round_not_nan)

lemma f32_mul_isnan:
  "f32_isnan (f32_mul a b) \<longleftrightarrow>
     f32_isnan a \<or> f32_isnan b \<or>
     (f32_isinf a \<and> f32_isfinite b \<and> f32_mant b = 0) \<or>
     (f32_isinf b \<and> f32_isfinite a \<and> f32_mant a = 0)"
  by (auto simp: f32_mul_def Let_def f32_round_not_nan dest: f32_isinf_not_finite)

subsection \<open>When rounding stays finite\<close>

lemma f32_round_at_finite:
  assumes "e + int (bitlen m) - 24 \<le> e'" and "e' \<le> 103"
  shows "f32_isfinite (f32_round_at s e' m e)"
proof -
  define L where "L = bitlen m"
  define q where "q = (if e' \<le> e then m * 2 ^ nat (e - e') else m div 2 ^ nat (e' - e))"
  define r where "r = (if e' \<le> e then 0 else m mod 2 ^ nat (e' - e))"
  define h where "h = (if e' \<le> e then 1 else (2::nat) ^ (nat (e' - e) - 1))"
  define q' where "q' = (if h < r \<or> (r = h \<and> odd q) then q + 1 else q)"
  define v where "v = nat (e' + 149) * 2 ^ 23 + q'"
  have m: "m < 2 ^ L" 
    using bitlen_bounds [of m] by (cases "m = 0") (simp_all add: L_def)
  have q: "q < 2 ^ 24"
  proof (cases "e' \<le> e")
    case True
    with assms(1) have "L + nat (e - e') \<le> 24" by (simp add: L_def)
    then have "(2::nat) ^ (L + nat (e - e')) \<le> 2 ^ 24"
      by (intro power_increasing) simp_all
    then have "2 ^ L * 2 ^ nat (e - e') \<le> (2::nat) ^ 24"
      by (simp only: power_add)
    moreover have "m * 2 ^ nat (e - e') < 2 ^ L * 2 ^ nat (e - e')"
      using m by simp
    ultimately have "m * 2 ^ nat (e - e') < 2 ^ 24"
      by (rule less_le_trans [rotated])
    with True show ?thesis
      by (simp add: q_def)
  next
    case False
    with assms(1) have "L \<le> 24 + nat (e' - e)" by (simp add: L_def)
    then have "(2::nat) ^ L \<le> 2 ^ (24 + nat (e' - e))"
      by (intro power_increasing) simp_all
    with m have "m < 2 ^ 24 * 2 ^ nat (e' - e)"
      by (simp add: power_add)
    then have "m div 2 ^ nat (e' - e) < 2 ^ 24"
      by (simp add: less_mult_imp_div_less)
    with False show ?thesis by (simp add: q_def)
  qed
  then have "q' \<le> 2 ^ 24" by (simp add: q'_def)
  moreover have "nat (e' + 149) \<le> 252" using assms(2) by simp
  then have "nat (e' + 149) * 2 ^ 23 \<le> 252 * (2 ^ 23 :: nat)"
    by (rule mult_le_mono1)
  ultimately have v: "v < 255 * 2 ^ 23" by (simp add: v_def)
  have "f32_round_at s e' m e = (if 255 * 2 ^ 23 \<le> v then f32_inf s else f32_bits s v)"
    unfolding f32_round_at_def Let_def v_def q'_def h_def r_def q_def ..
  with v show ?thesis
    by (simp add: f32_bits_finite)
qed

lemma f32_round_finite:
  assumes "int (bitlen m) + e \<le> 127"
  shows "f32_isfinite (f32_round s m e)"
proof (cases "m = 0")
  case False
  have "f32_isfinite (f32_round_at s (max (e + int (bitlen m) - 24) (- 149)) m e)"
    using assms by (intro f32_round_at_finite) simp_all
  with False show ?thesis by (simp add: f32_round_def)
qed (simp add: f32_round_def)


lemma f32_mant_lt: "f32_mant x < 2 ^ 24"
proof -
  have "f32_frac x < 2 ^ 23" by (simp add: f32_frac_nat)
  then show ?thesis by (simp add: f32_mant_def)
qed

lemma f32_add_finite:
  assumes "f32_isfinite a" and "f32_isfinite b" and "f32_exp2 a \<le> 102" and "f32_exp2 b \<le> 102"
  shows "f32_isfinite (f32_add a b)"
proof -
  define e where "e = min (f32_exp2 a) (f32_exp2 b)"
  define D where "D = nat (max (f32_exp2 a) (f32_exp2 b) - e)"
  define va where "va = (if f32_sign a then - 1 else 1) * int (f32_mant a) * 2 ^ nat (f32_exp2 a - e)"
  define vb where "vb = (if f32_sign b then - 1 else 1) * int (f32_mant b) * 2 ^ nat (f32_exp2 b - e)"
  have sh: "nat (f32_exp2 a - e) \<le> D" "nat (f32_exp2 b - e) \<le> D"
    by (simp_all add: D_def e_def)
  have "\<bar>va\<bar> = int (f32_mant a) * 2 ^ nat (f32_exp2 a - e)"
    by (simp add: va_def abs_mult)
  also have "\<dots> \<le> int (f32_mant a) * 2 ^ D"
    using sh(1) by (intro mult_left_mono power_increasing) simp_all
  also have "\<dots> < 2 ^ 24 * 2 ^ D"
    using f32_mant_lt [of a] by (intro mult_strict_right_mono) simp_all
  finally have a: "\<bar>va\<bar> < 2 ^ 24 * 2 ^ D" .
  have "\<bar>vb\<bar> = int (f32_mant b) * 2 ^ nat (f32_exp2 b - e)"
    by (simp add: vb_def abs_mult)
  also have "\<dots> \<le> int (f32_mant b) * 2 ^ D"
    using sh(2) by (intro mult_left_mono power_increasing) simp_all
  also have "\<dots> < 2 ^ 24 * 2 ^ D"
    using f32_mant_lt [of b] by (intro mult_strict_right_mono) simp_all
  finally have b: "\<bar>vb\<bar> < 2 ^ 24 * 2 ^ D" .
  have "\<bar>va + vb\<bar> \<le> \<bar>va\<bar> + \<bar>vb\<bar>" by (rule abs_triangle_ineq)
  with a b have "\<bar>va + vb\<bar> < 2 ^ (25 + D)" by (simp add: power_add)
  then have "nat \<bar>va + vb\<bar> < 2 ^ (25 + D)"
    by (simp add: nat_less_iff)
  then have "bitlen (nat \<bar>va + vb\<bar>) \<le> 25 + D" by (rule bitlen_le)
  moreover have "int D + e \<le> 102"
    using assms(3,4) by (simp add: D_def e_def)
  ultimately have "int (bitlen (nat \<bar>va + vb\<bar>)) + e \<le> 127" by simp
  then have r: "f32_isfinite (f32_round (va + vb < 0) (nat \<bar>va + vb\<bar>) e)"
    by (rule f32_round_finite)
  from assms(1,2) have "f32_add a b =
      (if va + vb = 0 then f32_zero (f32_sign a \<and> f32_sign b)
       else f32_round (va + vb < 0) (nat \<bar>va + vb\<bar>) e)"
    by (simp add: f32_add_def f32_finite_iff Let_def e_def va_def vb_def)
  with r show ?thesis by simp
qed

lemma f32_mul_stays_finite:
  assumes "f32_isfinite a" and "f32_isfinite b" and "f32_exp2 a + f32_exp2 b \<le> 79"
  shows "f32_isfinite (f32_mul a b)"
proof -
  have "f32_mant a * f32_mant b < 2 ^ 24 * 2 ^ 24"
    using f32_mant_lt [of a] f32_mant_lt [of b] by (intro mult_strict_mono) simp_all
  then have "f32_mant a * f32_mant b < 2 ^ 48" by simp
  then have "bitlen (f32_mant a * f32_mant b) \<le> 48" by (rule bitlen_le)
  with assms(3) have "int (bitlen (f32_mant a * f32_mant b)) + (f32_exp2 a + f32_exp2 b) \<le> 127"
    by simp
  then have "f32_isfinite (f32_round (f32_sign a \<noteq> f32_sign b) (f32_mant a * f32_mant b) (f32_exp2 a + f32_exp2 b))"
    by (rule f32_round_finite)
  with assms(1,2) show ?thesis
    by (simp add: f32_mul_finite f32_finite_iff)
qed


subsection \<open>Negation and order\<close>

lemma f32_neg_add: "f32_neg x = x + 0x80000000"
proof -
  have "f32_neg x = flip_bit 31 x"
    by (simp add: f32_neg_def flip_bit_eq_xor)
  also have "\<dots> = x + 0x80000000"
    by (simp add: flip_bit_eq_if set_bit_eq unset_bit_eq)
  finally show ?thesis .
qed

lemma unat_f32_neg: "unat (f32_neg x) = (if 2 ^ 31 \<le> unat x then unat x - 2 ^ 31 else unat x + 2 ^ 31)"
proof -
  have "unat (f32_neg x) = (unat x + 2 ^ 31) mod 2 ^ 32"
    by (simp add: f32_neg_add unat_word_ariths)
  also have "\<dots> = (if 2 ^ 31 \<le> unat x then unat x - 2 ^ 31 else unat x + 2 ^ 31)"
  proof (cases "2 ^ 31 \<le> unat x")
    case True
    then have "unat x + 2 ^ 31 = (unat x - 2 ^ 31) + 1 * 2 ^ 32" by simp
    moreover have "unat x - 2 ^ 31 < 2 ^ 32" using unat_f32_lt [of x] by simp
    ultimately show ?thesis using True by (simp only: mod_mult_self1 mod_less if_True)
  next
    case False
    then show ?thesis by simp
  qed
  finally show ?thesis .
qed

lemma f32_neg_fields:
  "f32_expo (f32_neg x) = f32_expo x" "f32_frac (f32_neg x) = f32_frac x"
  "f32_sign (f32_neg x) = (\<not> f32_sign x)"
proof -
  have d: "(u + 2 ^ 31) div 2 ^ 23 mod 2 ^ 8 = u div 2 ^ 23 mod (2 ^ 8 :: nat)" for u :: nat
  proof -
    have "(u + 2 ^ 31) div 2 ^ 23 = u div 2 ^ 23 + 1 * 2 ^ 8"
      by (simp add: div_add1_eq)
    then show ?thesis by (simp only: mod_mult_self1)
  qed
  have m: "(u + 2 ^ 31) mod 2 ^ 23 = u mod (2 ^ 23 :: nat)" for u :: nat
  proof -
    have "u + 2 ^ 31 = u + 2 ^ 8 * 2 ^ 23" by simp
    then show ?thesis by (simp only: mod_mult_self1)
  qed
  show "f32_expo (f32_neg x) = f32_expo x"
  proof (cases "2 ^ 31 \<le> unat x")
    case True
    then have "unat x = (unat x - 2 ^ 31) + 2 ^ 31" by simp
    then have "unat x div 2 ^ 23 mod 2 ^ 8 = (unat x - 2 ^ 31) div 2 ^ 23 mod 2 ^ 8"
      using d [of "unat x - 2 ^ 31"] by simp
    with True show ?thesis by (simp add: f32_expo_nat unat_f32_neg)
  next
    case False
    then show ?thesis using d [of "unat x"] by (simp add: f32_expo_nat unat_f32_neg)
  qed
  show "f32_frac (f32_neg x) = f32_frac x"
  proof (cases "2 ^ 31 \<le> unat x")
    case True
    then have "unat x = (unat x - 2 ^ 31) + 2 ^ 31" by simp
    then have "unat x mod 2 ^ 23 = (unat x - 2 ^ 31) mod 2 ^ 23"
      using m [of "unat x - 2 ^ 31"] by simp
    with True show ?thesis by (simp add: f32_frac_nat unat_f32_neg)
  next
    case False
    then show ?thesis using m [of "unat x"] by (simp add: f32_frac_nat unat_f32_neg)
  qed
  show "f32_sign (f32_neg x) = (\<not> f32_sign x)"
    using unat_f32_lt [of x] by (simp add: f32_sign_nat unat_f32_neg) arith
qed

lemma f32_neg_class:
  "f32_isfinite (f32_neg x) = f32_isfinite x" "f32_isnan (f32_neg x) = f32_isnan x"
  "f32_isinf (f32_neg x) = f32_isinf x" "f32_exp2 (f32_neg x) = f32_exp2 x"
  "f32_mant (f32_neg x) = f32_mant x"
  by (simp_all add: f32_isfinite_def f32_isnan_def f32_isinf_def f32_exp2_def f32_mant_def f32_neg_fields)

lemma f32_expo_key: "f32_expo x = nat \<bar>f32_key x\<bar> div 2 ^ 23"
proof -
  have "unat x div 2 ^ 23 mod 2 ^ 8 = unat x mod 2 ^ (23 + 8) div 2 ^ 23"
    by (rule div_exp_mod_exp_eq)
  then show ?thesis
    by (simp add: f32_expo_nat f32_key_def f32_magnitude_nat)
qed

lemma f32_key_bounds_expo:
  assumes "0 \<le> f32_key x" and "f32_key x \<le> int K"
  shows "f32_expo x \<le> K div 2 ^ 23"
proof -
  from assms have "nat \<bar>f32_key x\<bar> \<le> K" by simp
  then show ?thesis
    by (simp add: f32_expo_key div_le_mono)
qed

lemma f32_key_pos_sign: "0 < f32_key x \<Longrightarrow> \<not> f32_sign x"
  by (auto simp: f32_key_def split: if_splits)

lemma f32_in_0_100_fields:
  assumes "f32_in_0_100 x"
  shows "f32_isfinite x" and "f32_exp2 x \<le> - 17"
proof -
  from assms have k: "0 \<le> f32_key x" "f32_key x \<le> int 0x42C80000"
    by (simp_all add: f32_in_0_100_def f32_le_def)
  from f32_key_bounds_expo [OF k] have e: "f32_expo x \<le> 133" by simp
  then show "f32_isfinite x" by (simp add: f32_isfinite_def)
  from e show "f32_exp2 x \<le> - 17" by (simp add: f32_exp2_def)
qed

lemma f32_valid_alpha_fields:
  assumes "f32_gt a f32_0_0" and "f32_le a f32_1_0"
  shows "f32_isfinite a" and "f32_exp2 a \<le> - 23"
proof -
  from assms have k: "0 \<le> f32_key a" "f32_key a \<le> int 0x3F800000"
    by (simp_all add: f32_gt_def f32_lt_def f32_le_def)
  from f32_key_bounds_expo [OF k] have e: "f32_expo a \<le> 127" by simp
  then show "f32_isfinite a" by (simp add: f32_isfinite_def)
  from e show "f32_exp2 a \<le> - 23" by (simp add: f32_exp2_def)
qed

lemma f32_1_0_fields: "f32_isfinite f32_1_0" "f32_exp2 f32_1_0 = - 23"
  by (simp_all add: f32_defs)

text \<open>
  With a valid coefficient, an input humidity within 0 to 100 and a finite smoothed
  humidity, the blend is a number.
\<close>

lemma blend_not_nan:
  assumes "f32_gt a f32_0_0" and "f32_le a f32_1_0" and "f32_in_0_100 x" and "f32_isfinite st"
  shows "\<not> f32_isnan (f32_add (f32_mul a x) (f32_mul (f32_sub f32_1_0 a) st))"
proof -
  note a = f32_valid_alpha_fields [OF assms(1,2)]
  note x = f32_in_0_100_fields [OF assms(3)]
  have p1: "f32_isfinite (f32_mul a x)"
    using a x by (intro f32_mul_stays_finite) simp_all
  have oma: "f32_isfinite (f32_sub f32_1_0 a)"
    unfolding f32_sub_def using a f32_1_0_fields
    by (intro f32_add_finite) (simp_all add: f32_neg_class)
  have p2: "\<not> f32_isnan (f32_mul (f32_sub f32_1_0 a) st)"
    using oma assms(4) by (simp add: f32_mul_isnan f32_finite_iff)
  from p1 p2 show ?thesis
    by (simp add: f32_add_isnan f32_finite_iff)
qed

lemma offset_not_nan:
  assumes "f32_in_0_100 x" and "\<not> f32_isnan h"
  shows "\<not> f32_isnan (f32_add x h)"
  using f32_in_0_100_fields(1) [OF assms(1)] assms(2)
  by (simp add: f32_add_isnan f32_finite_iff)

subsection \<open>The humidity range\<close>

text \<open>
  C8 as stated fails where the arithmetic gives NaN: both comparisons of \<^verbatim>\<open>dht20_clampf\<close> are
  false on a NaN, which is returned as it is. A sample of 60 % RH with a NaN humidity
  offset comes out with a NaN humidity, which is not within 0 to 100.
\<close>

theorem nan_offset_counterexample:
  "f32_in_0_100 (humidity_rh sample_a) \<and> f32_isnan f32_qnan \<and>
   dht20_sample_apply_offset (Some sample_a) f32_0_0 f32_qnan =
     (ESP_OK, Some (sample_a\<lparr>humidity_rh := f32_qnan\<rparr>)) \<and>
   \<not> f32_in_0_100 (humidity_rh (sample_a\<lparr>humidity_rh := f32_qnan\<rparr>))"
proof -
  have 1: "f32_in_0_100 (humidity_rh sample_a)"
    by (simp add: sample_a_def f32_in_0_100_def f32_defs)
  have 2: "f32_add 0x41F00000 f32_0_0 = 0x41F00000" by (simp add: f32_defs)
  have 3: "f32_add x f32_qnan = f32_qnan" for x by (simp add: f32_add_def)
  have 4: "dht20_clampf f32_qnan f32_0_0 f32_100_0 = f32_qnan"
    by (simp add: clampf_cases)
  have 5: "\<not> f32_in_0_100 f32_qnan"
    by (simp add: f32_in_0_100_def f32_le_def)
  from 1 5 show ?thesis
    by (simp add: dht20_sample_apply_offset_def 3 4) (simp add: sample_a_def 2)
qed

text \<open>
  C8 (amended). A successful decode of a 7-byte frame gives a humidity of at least 0 and
  below 100. The humidity that \<^verbatim>\<open>dht20_sample_apply_offset\<close> or \<^verbatim>\<open>dht20_filter_apply\<close> puts
  out is within 0 to 100 exactly when the value they clamp (humidity plus offset; the new
  smoothed humidity) is not NaN, whether or not that value is within the range. It is not
  NaN, for the offset, when the input humidity is within 0 to 100 and the offset is not
  NaN; for the filter, when the input humidity is within 0 to 100, the coefficient is
  valid and, on other than the first apply, the smoothed humidity so far is finite.
  Neither operation clamps the temperature: the output temperature is temperature plus
  offset, and the smoothed temperature.
\<close>

theorem humidity_range_kept:
  "(length raw = DHT20_DATA_LEN \<and> dht20_parse_sample raw s0 w = (ESP_OK, s', w') \<longrightarrow>
      f32_le f32_0_0 (humidity_rh s') \<and> f32_lt (humidity_rh s') f32_100_0) \<and>
   (dht20_sample_apply_offset (Some s) t h = (ESP_OK, Some s1) \<longrightarrow>
      (f32_in_0_100 (humidity_rh s1) \<longleftrightarrow> \<not> f32_isnan (f32_add (humidity_rh s) h)) \<and>
      (f32_in_0_100 (humidity_rh s) \<and> \<not> f32_isnan h \<longrightarrow> f32_in_0_100 (humidity_rh s1)) \<and>
      temperature_c s1 = f32_add (temperature_c s) t) \<and>
   (dht20_filter_apply (Some f) (Some i) (Some out) = (ESP_OK, Some f', Some o') \<longrightarrow>
      (f32_in_0_100 (humidity_rh o') \<longleftrightarrow> \<not> f32_isnan (filter_humidity_rh f')) \<and>
      (f32_in_0_100 (humidity_rh i) \<and> (initialized f \<longrightarrow> f32_isfinite (filter_humidity_rh f)) \<longrightarrow>
         f32_in_0_100 (humidity_rh o')) \<and>
      temperature_c o' = filter_temperature_c f')"
proof (intro conjI impI)
  assume "length raw = DHT20_DATA_LEN \<and> dht20_parse_sample raw s0 w = (ESP_OK, s', w')"
  then have ok: "fst (dht20_parse_sample raw s0 w) = ESP_OK"
    and r: "dht20_parse_sample raw s0 w = (ESP_OK, s', w')" by simp_all
  from ok have b: "\<not> bit (raw ! 0) 7" and c: "dht20_crc8 raw 6 = raw ! 6"
    by (auto simp: parse_cases split: if_splits)
  from r have h: "humidity_rh s' = convert_humidity_rh (unpack_humidity_raw raw)"
    by (auto simp: parse_ok [OF b c])
  from convert_humidity_range [OF unpack_humidity_raw_lt [of raw]]
  show "f32_le f32_0_0 (humidity_rh s')" "f32_lt (humidity_rh s') f32_100_0"
    by (simp_all add: h)
next
  assume a: "dht20_sample_apply_offset (Some s) t h = (ESP_OK, Some s1)"
  then have s1: "s1 = s\<lparr>temperature_c := f32_add (temperature_c s) t,
      humidity_rh := dht20_clampf (f32_add (humidity_rh s) h) f32_0_0 f32_100_0\<rparr>"
    by (simp add: dht20_sample_apply_offset_def)
  show "f32_in_0_100 (humidity_rh s1) \<longleftrightarrow> \<not> f32_isnan (f32_add (humidity_rh s) h)"
    by (simp add: s1 clampf_in_range)
  show "temperature_c s1 = f32_add (temperature_c s) t"
    by (simp add: s1)
  assume "f32_in_0_100 (humidity_rh s) \<and> \<not> f32_isnan h"
  then show "f32_in_0_100 (humidity_rh s1)"
    by (simp add: s1 clampf_in_range offset_not_nan)
next
  assume a: "dht20_filter_apply (Some f) (Some i) (Some out) = (ESP_OK, Some f', Some o')"
  then have v: "f32_gt (alpha f) f32_0_0" "f32_le (alpha f) f32_1_0"
    by (auto simp: filter_apply_Some split: if_splits)
  from a v have o: "humidity_rh o' = dht20_clampf (filter_humidity_rh f') f32_0_0 f32_100_0"
    and t: "temperature_c o' = filter_temperature_c f'"
    by (auto simp: filter_apply_Some split: if_splits)
  show "f32_in_0_100 (humidity_rh o') \<longleftrightarrow> \<not> f32_isnan (filter_humidity_rh f')"
    by (simp add: o clampf_in_range)
  show "temperature_c o' = filter_temperature_c f'" by (rule t)
  assume p: "f32_in_0_100 (humidity_rh i) \<and> (initialized f \<longrightarrow> f32_isfinite (filter_humidity_rh f))"
  have "\<not> f32_isnan (filter_humidity_rh f')"
  proof (cases "initialized f")
    case False
    with a v have "filter_humidity_rh f' = humidity_rh i"
      by (auto simp: filter_apply_Some)
    with p show ?thesis by (simp add: f32_in_0_100_def f32_le_def)
  next
    case True
    with a v have "filter_humidity_rh f' =
        f32_add (f32_mul (alpha f) (humidity_rh i)) (f32_mul (f32_sub f32_1_0 (alpha f)) (filter_humidity_rh f))"
      by (auto simp: filter_apply_Some)
    with p True v show ?thesis by (simp add: blend_not_nan)
  qed
  then show "f32_in_0_100 (humidity_rh o')"
    by (simp add: o clampf_in_range)
qed


theorem humidity_range_kept_witness:
  "length frame_ok = DHT20_DATA_LEN \<and>
   fst (dht20_parse_sample frame_ok sample_0 (world_of ESP_OK frame_ok)) = ESP_OK \<and>
   f32_le f32_0_0 (humidity_rh (fst (snd (dht20_parse_sample frame_ok sample_0 (world_of ESP_OK frame_ok))))) \<and>
   f32_lt (humidity_rh (fst (snd (dht20_parse_sample frame_ok sample_0 (world_of ESP_OK frame_ok))))) f32_100_0 \<and>
   f32_in_0_100 (humidity_rh sample_99) \<and> \<not> f32_isnan 0x40A00000 \<and>
   dht20_sample_apply_offset (Some sample_99) f32_200_0 0x40A00000 =
     (ESP_OK, Some (sample_99\<lparr>temperature_c := 0x435C0000, humidity_rh := f32_100_0\<rparr>)) \<and>
   f32_in_0_100 f32_100_0 \<and>
   f32_in_0_100 (humidity_rh sample_a) \<and> initialized filter_0 \<and> f32_isfinite (filter_humidity_rh filter_0) \<and>
   dht20_filter_apply (Some filter_0) (Some sample_a) (Some sample_0) =
     (ESP_OK,
      Some (filter_0\<lparr>filter_temperature_c := 0x41C80000, filter_humidity_rh := 0x42480000\<rparr>),
      Some (sample_a\<lparr>temperature_c := 0x41C80000, humidity_rh := 0x42480000\<rparr>)) \<and>
   f32_in_0_100 0x42480000"
proof -
  let ?r = "dht20_parse_sample frame_ok sample_0 (world_of ESP_OK frame_ok)"
  have l: "length frame_ok = DHT20_DATA_LEN" by (simp add: frame_ok_def DHT20_DATA_LEN_def)
  have ok: "fst ?r = ESP_OK" by (rule frame_ok_decodes)
  then have r: "?r = (ESP_OK, fst (snd ?r), snd (snd ?r))"
    by (simp add: prod_eq_iff)
  have h: "f32_in_0_100 (humidity_rh sample_99)" "\<not> f32_isnan 0x40A00000"
    "f32_in_0_100 (humidity_rh sample_a)" "initialized filter_0" "f32_isfinite (filter_humidity_rh filter_0)"
    by (simp_all add: sample_99_def sample_a_def filter_0_def f32_in_0_100_def f32_defs)
  have n: "\<not> f32_isnan (f32_add (humidity_rh sample_99) 0x40A00000)" "\<not> f32_isnan 0x42480000"
    by (simp_all add: sample_99_def f32_defs)
  have e: "f32_add 0x41A00000 f32_200_0 = 0x435C0000" "f32_add 0x42C60000 0x40A00000 = 0x42D00000"
    "dht20_clampf 0x42D00000 f32_0_0 f32_100_0 = f32_100_0"
    by (simp_all add: dht20_clampf_def f32_defs)
  have a: "dht20_sample_apply_offset (Some sample_99) f32_200_0 0x40A00000 =
     (ESP_OK, Some (sample_99\<lparr>temperature_c := 0x435C0000, humidity_rh := f32_100_0\<rparr>))"
    by (simp add: dht20_sample_apply_offset_def) (simp add: sample_99_def e)
  have g: "f32_sub f32_1_0 0x3F000000 = 0x3F000000"
    "f32_mul 0x3F000000 0x41F00000 = 0x41700000" "f32_mul 0x3F000000 0x41A00000 = 0x41200000"
    "f32_add 0x41700000 0x41200000 = 0x41C80000"
    "f32_mul 0x3F000000 0x42700000 = 0x41F00000" "f32_mul 0x3F000000 0x42200000 = 0x41A00000"
    "f32_add 0x41F00000 0x41A00000 = 0x42480000"
    "dht20_clampf 0x42480000 f32_0_0 f32_100_0 = 0x42480000"
    by (simp_all add: dht20_clampf_def f32_defs)
  have b: "dht20_filter_apply (Some filter_0) (Some sample_a) (Some sample_0) =
     (ESP_OK,
      Some (filter_0\<lparr>filter_temperature_c := 0x41C80000, filter_humidity_rh := 0x42480000\<rparr>),
      Some (sample_a\<lparr>temperature_c := 0x41C80000, humidity_rh := 0x42480000\<rparr>))"
    using filter_0_alpha_ok h(4)
    by (simp add: filter_apply_Some) (simp add: filter_0_def sample_a_def g)
  from humidity_range_kept [of frame_ok sample_0 "world_of ESP_OK frame_ok" "fst (snd ?r)" "snd (snd ?r)"
      sample_99 f32_200_0 "0x40A00000" "sample_99\<lparr>temperature_c := 0x435C0000, humidity_rh := f32_100_0\<rparr>"
      filter_0 sample_a sample_0
      "filter_0\<lparr>filter_temperature_c := 0x41C80000, filter_humidity_rh := 0x42480000\<rparr>"
      "sample_a\<lparr>temperature_c := 0x41C80000, humidity_rh := 0x42480000\<rparr>"]
    l ok r h a b n
  show ?thesis
    by simp
qed

end
